theory Spec2Isabelle
  imports Complex_Main "HOL-Library.Multiset"
begin

section \<open>Layout engine (src/features/scan/Treemap.tsx)\<close>

text \<open>
  A \<open>ScanNode\<close> is a directory of the aggregated tree. The layout reads its
  \<open>sizeBytes\<close> and carries the node into the rectangle; \<open>path\<close> and
  \<open>name\<close> are only displayed. A JavaScript \<open>number\<close> is modelled as an exact
  rational: rounding of floating point is outside the model.
\<close>

datatype ScanNode =
  ScanNode (node_path: string) (node_name: string) (sizeBytes: rat) (children: "ScanNode list")

record Rect =
  rect_x :: rat
  rect_y :: rat
  rect_w :: rat
  rect_h :: rat
  rect_node :: ScanNode

text \<open>\<open>sumNodeSizes\<close>: the loop \<open>total += node.sizeBytes\<close> from \<open>total = 0\<close> (\<open>tot\<close> below).\<close>

definition sumNodeSizes :: "ScanNode list \<Rightarrow> rat" where
  "sumNodeSizes nodes = fold (\<lambda>node acc. acc + sizeBytes node) nodes 0"

text \<open>
  \<open>sortBySize\<close>: \<open>[...nodes].sort((a, b) => b.sizeBytes - a.sizeBytes)\<close>, a stable
  sort of a copy, largest first.
\<close>

definition sortBySize :: "ScanNode list \<Rightarrow> ScanNode list" where
  "sortBySize nodes = sort_key (\<lambda>node. - sizeBytes node) nodes"

text \<open>
  \<open>getSplitIndex\<close>: the loop over \<open>i\<close> with the running \<open>currentSum\<close>; it returns
  \<open>i + 1\<close> at the first index where \<open>currentSum >= total / 2\<close>, and \<open>1\<close> when the
  loop runs to the end.
\<close>

fun getSplitIndex_from :: "ScanNode list \<Rightarrow> rat \<Rightarrow> nat \<Rightarrow> rat \<Rightarrow> nat" where
  "getSplitIndex_from [] tot i currentSum = 1"
| "getSplitIndex_from (node # rest) tot i currentSum =
     (if currentSum + sizeBytes node \<ge> tot / 2 then i + 1
      else getSplitIndex_from rest tot (i + 1) (currentSum + sizeBytes node))"

definition getSplitIndex :: "ScanNode list \<Rightarrow> rat \<Rightarrow> nat" where
  "getSplitIndex nodes tot = getSplitIndex_from nodes tot 0 0"

text \<open>
  What a placed rectangle covers: the half-open box
  \<open>[x, x + w) \<times> [y, y + h)\<close>. With half-open boxes two rectangles that only share an
  edge have no point in common, so "no overlap" is "no common point" and "covers
  exactly" is equality of the covered points.
\<close>

definition inside :: "Rect \<Rightarrow> rat \<times> rat \<Rightarrow> bool" where
  "inside r p = (rect_x r \<le> fst p \<and> fst p < rect_x r + rect_w r \<and>
                 rect_y r \<le> snd p \<and> snd p < rect_y r + rect_h r)"

definition in_rect :: "rat \<Rightarrow> rat \<Rightarrow> rat \<Rightarrow> rat \<Rightarrow> rat \<times> rat \<Rightarrow> bool" where
  "in_rect x y w h p = (x \<le> fst p \<and> fst p < x + w \<and> y \<le> snd p \<and> snd p < y + h)"

text \<open>
  The invariant of the bisection: the rectangles carry exactly the given nodes, every
  point lies in exactly one rectangle if it lies in the given box and in none otherwise,
  and each rectangle has positive sides and its node's share of the area.
\<close>

definition layout_ok :: "ScanNode list \<Rightarrow> rat \<Rightarrow> rat \<Rightarrow> rat \<Rightarrow> rat \<Rightarrow> Rect list \<Rightarrow> bool" where
  "layout_ok nodes x y w h rs =
     (mset (map rect_node rs) = mset nodes \<and>
      (\<forall>p. length (filter (\<lambda>r. inside r p) rs) = (if in_rect x y w h p then 1 else 0)) \<and>
      (\<forall>r \<in> set rs. 0 < rect_w r \<and> 0 < rect_h r \<and>
          rect_w r * rect_h r * sumNodeSizes nodes = w * h * sizeBytes (rect_node r)))"

subsection \<open>Facts about the split index, needed for termination\<close>

lemma sumNodeSizes_fold:
  "fold (\<lambda>node acc. acc + sizeBytes node) nodes a = a + sum_list (map sizeBytes nodes)"
  by (induction nodes arbitrary: a) (simp_all add: add.assoc)

lemma sumNodeSizes_sum_list: "sumNodeSizes nodes = sum_list (map sizeBytes nodes)"
  by (simp add: sumNodeSizes_def sumNodeSizes_fold)

lemma getSplitIndex_from_lower: "i + 1 \<le> getSplitIndex_from nodes tot i c \<or> getSplitIndex_from nodes tot i c = 1"
  by (induction nodes tot i c rule: getSplitIndex_from.induct) auto

lemma getSplitIndex_positive: "0 < getSplitIndex nodes tot"
  using getSplitIndex_from_lower [of 0 nodes tot 0] by (auto simp: getSplitIndex_def)

lemma getSplitIndex_from_upper:
  "j < length nodes \<Longrightarrow> tot / 2 \<le> c + sum_list (map sizeBytes (take (Suc j) nodes)) \<Longrightarrow>
     getSplitIndex_from nodes tot i c \<le> i + j + 1"
proof (induction nodes arbitrary: i c j)
  case Nil
  then show ?case by simp
next
  case (Cons node rest)
  show ?case
  proof (cases "tot / 2 \<le> c + sizeBytes node")
    case True
    then show ?thesis by simp
  next
    case False
    with Cons.prems obtain j' where j': "j = Suc j'"
      by (cases j) auto
    from Cons.prems j' have "j' < length rest"
      and "tot / 2 \<le> (c + sizeBytes node) + sum_list (map sizeBytes (take (Suc j') rest))"
      by (simp_all add: add.assoc)
    from Cons.IH [OF this, of "i + 1"] False j' show ?thesis by simp
  qed
qed

lemma sortBySize_mset: "mset (sortBySize nodes) = mset nodes"
  by (simp add: sortBySize_def)

lemma sortBySize_length: "length (sortBySize nodes) = length nodes"
  by (simp add: sortBySize_def)

lemma sortBySize_set: "set (sortBySize nodes) = set nodes"
  by (simp add: sortBySize_def)

lemma sumNodeSizes_sortBySize: "sumNodeSizes (sortBySize nodes) = sumNodeSizes nodes"
proof -
  have "mset (map sizeBytes (sortBySize nodes)) = mset (map sizeBytes nodes)"
    by (simp add: sortBySize_mset)
  then have "sum_mset (mset (map sizeBytes (sortBySize nodes))) = sum_mset (mset (map sizeBytes nodes))"
    by simp
  then show ?thesis
    by (simp only: sumNodeSizes_sum_list sum_mset_sum_list)
qed

lemma sortBySize_last_least:
  assumes "node \<in> set (sortBySize nodes)"
  shows "sizeBytes (last (sortBySize nodes)) \<le> sizeBytes node"
proof -
  let ?s = "sortBySize nodes"
  have srt: "sorted (map (\<lambda>node. - sizeBytes node) ?s)"
    by (simp add: sortBySize_def)
  from assms obtain k where k: "k < length ?s" "?s ! k = node"
    by (auto simp: in_set_conv_nth)
  then have ne: "?s \<noteq> []" by auto
  have "map (\<lambda>node. - sizeBytes node) ?s ! k \<le> map (\<lambda>node. - sizeBytes node) ?s ! (length ?s - 1)"
    using srt k(1) by (intro sorted_nth_mono) auto
  with k ne show ?thesis
    by (simp add: last_conv_nth)
qed

lemma sum_list_lower_bound:
  fixes f :: "'a \<Rightarrow> rat"
  assumes "\<And>x. x \<in> set xs \<Longrightarrow> m \<le> f x"
  shows "of_nat (length xs) * m \<le> sum_list (map f xs)"
  using assms by (induction xs) (auto simp: algebra_simps intro: add_mono)

lemma sortBySize_last_half:
  assumes len: "2 \<le> length nodes" and pos: "0 < sumNodeSizes (sortBySize nodes)"
  shows "sizeBytes (last (sortBySize nodes)) \<le> sumNodeSizes (sortBySize nodes) / 2"
proof -
  let ?s = "sortBySize nodes"
  let ?l = "sizeBytes (last ?s)"
  let ?t = "sumNodeSizes ?s"
  show ?thesis
  proof (cases "?l \<le> 0")
    case True
    with pos show ?thesis by simp
  next
    case False
    then have lpos: "0 < ?l" by simp
    have "of_nat (length ?s) * ?l \<le> ?t"
      unfolding sumNodeSizes_sum_list
      by (rule sum_list_lower_bound) (rule sortBySize_last_least)
    moreover have "2 * ?l \<le> of_nat (length ?s) * ?l"
    proof -
      have "(2::rat) \<le> of_nat (length ?s)"
        using len by (simp add: sortBySize_length)
      then show ?thesis using lpos by (simp add: mult_right_mono)
    qed
    ultimately show ?thesis by simp
  qed
qed

lemma getSplitIndex_sorted_bounds:
  assumes len: "2 \<le> length nodes" and pos: "0 < sumNodeSizes (sortBySize nodes)"
  shows "0 < getSplitIndex (sortBySize nodes) (sumNodeSizes (sortBySize nodes))"
    and "getSplitIndex (sortBySize nodes) (sumNodeSizes (sortBySize nodes)) < length nodes"
proof -
  let ?s = "sortBySize nodes"
  let ?t = "sumNodeSizes ?s"
  show "0 < getSplitIndex ?s ?t" by (rule getSplitIndex_positive)
  have n: "length ?s = length nodes" by (rule sortBySize_length)
  with len have ne: "?s \<noteq> []" by auto
  have split: "?s = butlast ?s @ [last ?s]"
    using ne by simp
  have "sum_list (map sizeBytes ?s) = sum_list (map sizeBytes (butlast ?s)) + sizeBytes (last ?s)"
    by (subst split) simp
  then have "?t / 2 \<le> sum_list (map sizeBytes (butlast ?s))"
    using sortBySize_last_half [OF len pos] by (simp add: sumNodeSizes_sum_list)
  moreover have "butlast ?s = take (Suc (length nodes - 2)) ?s"
    using len n by (simp add: butlast_conv_take Suc_diff_Suc numeral_2_eq_2)
  ultimately have "?t / 2 \<le> 0 + sum_list (map sizeBytes (take (Suc (length nodes - 2)) ?s))"
    by simp
  moreover have "length nodes - 2 < length ?s" using len n by simp
  ultimately have "getSplitIndex_from ?s ?t 0 0 \<le> 0 + (length nodes - 2) + 1"
    by (rule getSplitIndex_from_upper [rotated])
  then show "getSplitIndex ?s ?t < length nodes"
    using len by (simp add: getSplitIndex_def)
qed

subsection \<open>The recursive bisection\<close>

text \<open>
  \<open>recursiveSplit\<close>, branch for branch: the empty list, the single node (which gets
  the whole rectangle), and otherwise the sorted list cut at the split index, group A
  in the left (or upper) part and group B in the rest. \<open>result.push(...)\<close> of group A
  and then of group B is list append.
\<close>

function recursiveSplit :: "ScanNode list \<Rightarrow> rat \<Rightarrow> rat \<Rightarrow> rat \<Rightarrow> rat \<Rightarrow> Rect list" where
  "recursiveSplit nodes x y w h =
     (if length nodes = 0 then []
      else if length nodes = 1 then
        [\<lparr>rect_x = x, rect_y = y, rect_w = w, rect_h = h, rect_node = hd nodes\<rparr>]
      else
        let sorted = sortBySize nodes;
            tot = sumNodeSizes sorted
        in if tot \<le> 0 then []
           else
             let splitIndex = getSplitIndex sorted tot;
                 groupA = take splitIndex sorted;
                 groupB = drop splitIndex sorted;
                 sizeA = sumNodeSizes groupA;
                 ratioA = sizeA / tot
             in if w > h then
                  let wA = w * ratioA
                  in recursiveSplit groupA x y wA h @ recursiveSplit groupB (x + wA) y (w - wA) h
                else
                  let hA = h * ratioA
                  in recursiveSplit groupA x y w hA @ recursiveSplit groupB x (y + hA) w (h - hA))"
  by pat_completeness auto
termination
proof (relation "measure (\<lambda>(nodes, x, y, w, h). length nodes)", goal_cases)
  case 1
  show ?case by simp
next
  case (2 nodes x y w h sorted tot splitIndex)
  then have "length nodes \<noteq> 0" "length nodes \<noteq> 1" "0 < sumNodeSizes (sortBySize nodes)"
    by simp_all
  then have "2 \<le> length nodes" "0 < sumNodeSizes (sortBySize nodes)" by linarith+
  from getSplitIndex_sorted_bounds(2) [OF this] 2 show ?case by simp
next
  case (3 nodes x y w h sorted tot splitIndex)
  then have "length nodes \<noteq> 0" "length nodes \<noteq> 1" "0 < sumNodeSizes (sortBySize nodes)"
    by simp_all
  then have "2 \<le> length nodes" "0 < sumNodeSizes (sortBySize nodes)" by linarith+
  from getSplitIndex_sorted_bounds(1) [OF this] this(1) 3 show ?case
    by (simp add: sortBySize_length)
next
  case (4 nodes x y w h sorted tot splitIndex)
  then have "length nodes \<noteq> 0" "length nodes \<noteq> 1" "0 < sumNodeSizes (sortBySize nodes)"
    by simp_all
  then have "2 \<le> length nodes" "0 < sumNodeSizes (sortBySize nodes)" by linarith+
  from getSplitIndex_sorted_bounds(2) [OF this] 4 show ?case by simp
next
  case (5 nodes x y w h sorted tot splitIndex)
  then have "length nodes \<noteq> 0" "length nodes \<noteq> 1" "0 < sumNodeSizes (sortBySize nodes)"
    by simp_all
  then have "2 \<le> length nodes" "0 < sumNodeSizes (sortBySize nodes)" by linarith+
  from getSplitIndex_sorted_bounds(1) [OF this] this(1) 5 show ?case
    by (simp add: sortBySize_length)
qed

declare recursiveSplit.simps [simp del]

subsection \<open>Properties of the layout\<close>

lemma recursiveSplit_single:
  "recursiveSplit [node] x y w h = [\<lparr>rect_x = x, rect_y = y, rect_w = w, rect_h = h, rect_node = node\<rparr>]"
  by (simp add: recursiveSplit.simps)

lemma recursiveSplit_many:
  assumes "2 \<le> length nodes" "0 < sumNodeSizes (sortBySize nodes)"
  shows "recursiveSplit nodes x y w h =
    (let sorted = sortBySize nodes;
         tot = sumNodeSizes sorted;
         splitIndex = getSplitIndex sorted tot;
         groupA = take splitIndex sorted;
         groupB = drop splitIndex sorted;
         ratioA = sumNodeSizes groupA / tot
     in if w > h then
          recursiveSplit groupA x y (w * ratioA) h @
          recursiveSplit groupB (x + w * ratioA) y (w - w * ratioA) h
        else
          recursiveSplit groupA x y w (h * ratioA) @
          recursiveSplit groupB x (y + h * ratioA) w (h - h * ratioA))"
proof -
  from assms have "length nodes \<noteq> 0" "length nodes \<noteq> 1" "\<not> sumNodeSizes (sortBySize nodes) \<le> 0"
    by auto
  then show ?thesis
    by (subst recursiveSplit.simps) (simp add: Let_def)
qed

lemma sumNodeSizes_nonneg:
  "\<forall>n \<in> set nodes. 0 < sizeBytes n \<Longrightarrow> 0 \<le> sumNodeSizes nodes"
  unfolding sumNodeSizes_sum_list
  by (induction nodes) (auto intro: add_nonneg_nonneg less_imp_le)

lemma sumNodeSizes_pos:
  assumes "nodes \<noteq> []" "\<forall>n \<in> set nodes. 0 < sizeBytes n"
  shows "0 < sumNodeSizes nodes"
proof (cases nodes)
  case Nil
  with assms show ?thesis by simp
next
  case (Cons a rest)
  with assms have "0 < sizeBytes a" "0 \<le> sumNodeSizes rest"
    by (auto intro: sumNodeSizes_nonneg)
  then show ?thesis
    using Cons by (simp add: sumNodeSizes_sum_list add_pos_nonneg)
qed

lemma sumNodeSizes_append: "sumNodeSizes (xs @ ys) = sumNodeSizes xs + sumNodeSizes ys"
  by (simp add: sumNodeSizes_sum_list)

lemma sumNodeSizes_mset: "mset xs = mset ys \<Longrightarrow> sumNodeSizes xs = sumNodeSizes ys"
proof -
  assume "mset xs = mset ys"
  then have "mset (map sizeBytes xs) = mset (map sizeBytes ys)" by simp
  then have "sum_mset (mset (map sizeBytes xs)) = sum_mset (mset (map sizeBytes ys))"
    by simp
  then show ?thesis by (simp only: sumNodeSizes_sum_list sum_mset_sum_list)
qed

lemma layout_ok_single:
  "0 < w \<Longrightarrow> 0 < h \<Longrightarrow> layout_ok [node] x y w h (recursiveSplit [node] x y w h)"
  by (simp add: layout_ok_def recursiveSplit_single inside_def in_rect_def sumNodeSizes_def)

lemma area_share_scale:
  fixes a sA t wA w h s :: rat
  assumes "a * sA = wA * h * s" "wA * t = w * sA" "0 < sA"
  shows "a * t = w * h * s"
proof -
  have "(a * t) * sA = (a * sA) * t" by (simp add: mult_ac)
  also have "\<dots> = (wA * t) * h * s" using assms(1) by (simp add: mult_ac)
  also have "\<dots> = (w * h * s) * sA" using assms(2) by (simp add: mult_ac)
  finally show ?thesis using assms(3) by simp
qed

lemma layout_ok_hsplit:
  assumes A: "layout_ok A x y wA h rsA" and B: "layout_ok B (x + wA) y (w - wA) h rsB"
    and m: "mset A + mset B = mset nodes"
    and wA: "0 < wA" "wA < w"
    and sA: "0 < sumNodeSizes A" and sB: "0 < sumNodeSizes B"
    and r: "wA * sumNodeSizes nodes = w * sumNodeSizes A"
  shows "layout_ok nodes x y w h (rsA @ rsB)"
proof -
  have tot: "sumNodeSizes nodes = sumNodeSizes A + sumNodeSizes B"
    using sumNodeSizes_mset [of nodes "A @ B"] m by (simp add: sumNodeSizes_append)
  have rB: "(w - wA) * sumNodeSizes nodes = w * sumNodeSizes B"
    using r tot by (simp add: algebra_simps)
  have nodes: "mset (map rect_node (rsA @ rsB)) = mset nodes"
    using A B m by (simp add: layout_ok_def)
  have cover: "length (filter (\<lambda>r. inside r p) (rsA @ rsB)) = (if in_rect x y w h p then 1 else 0)" for p
  proof -
    have "length (filter (\<lambda>r. inside r p) (rsA @ rsB)) =
        (if in_rect x y wA h p then 1 else 0) + (if in_rect (x + wA) y (w - wA) h p then 1 else 0)"
      using A B unfolding layout_ok_def by (simp only: filter_append length_append)
    also have "\<dots> = (if in_rect x y w h p then 1 else 0)"
      using wA by (auto simp: in_rect_def)
    finally show ?thesis .
  qed
  have area: "0 < rect_w r \<and> 0 < rect_h r \<and>
      rect_w r * rect_h r * sumNodeSizes nodes = w * h * sizeBytes (rect_node r)"
    if "r \<in> set (rsA @ rsB)" for r
  proof (cases "r \<in> set rsA")
    case True
    with A have "0 < rect_w r" "0 < rect_h r"
      "rect_w r * rect_h r * sumNodeSizes A = wA * h * sizeBytes (rect_node r)"
      by (auto simp: layout_ok_def)
    with area_share_scale [OF this(3) r sA] show ?thesis by simp
  next
    case False
    with that have "r \<in> set rsB" by simp
    with B have "0 < rect_w r" "0 < rect_h r"
      "rect_w r * rect_h r * sumNodeSizes B = (w - wA) * h * sizeBytes (rect_node r)"
      by (auto simp: layout_ok_def)
    with area_share_scale [OF this(3) rB sB] show ?thesis by simp
  qed
  from nodes cover area show ?thesis
    unfolding layout_ok_def by blast
qed

lemma layout_ok_vsplit:
  assumes A: "layout_ok A x y w hA rsA" and B: "layout_ok B x (y + hA) w (h - hA) rsB"
    and m: "mset A + mset B = mset nodes"
    and hA: "0 < hA" "hA < h"
    and sA: "0 < sumNodeSizes A" and sB: "0 < sumNodeSizes B"
    and r: "hA * sumNodeSizes nodes = h * sumNodeSizes A"
  shows "layout_ok nodes x y w h (rsA @ rsB)"
proof -
  have tot: "sumNodeSizes nodes = sumNodeSizes A + sumNodeSizes B"
    using sumNodeSizes_mset [of nodes "A @ B"] m by (simp add: sumNodeSizes_append)
  have rB: "(h - hA) * sumNodeSizes nodes = h * sumNodeSizes B"
    using r tot by (simp add: algebra_simps)
  have nodes: "mset (map rect_node (rsA @ rsB)) = mset nodes"
    using A B m by (simp add: layout_ok_def)
  have cover: "length (filter (\<lambda>r. inside r p) (rsA @ rsB)) = (if in_rect x y w h p then 1 else 0)" for p
  proof -
    have "length (filter (\<lambda>r. inside r p) (rsA @ rsB)) =
        (if in_rect x y w hA p then 1 else 0) + (if in_rect x (y + hA) w (h - hA) p then 1 else 0)"
      using A B unfolding layout_ok_def by (simp only: filter_append length_append)
    also have "\<dots> = (if in_rect x y w h p then 1 else 0)"
      using hA by (auto simp: in_rect_def)
    finally show ?thesis .
  qed
  have area: "0 < rect_w r \<and> 0 < rect_h r \<and>
      rect_w r * rect_h r * sumNodeSizes nodes = w * h * sizeBytes (rect_node r)"
    if "r \<in> set (rsA @ rsB)" for r
  proof (cases "r \<in> set rsA")
    case True
    with A have "0 < rect_w r" "0 < rect_h r"
      "rect_w r * rect_h r * sumNodeSizes A = hA * w * sizeBytes (rect_node r)"
      by (auto simp: layout_ok_def mult_ac)
    with area_share_scale [OF this(3) r sA] show ?thesis by (simp add: mult_ac)
  next
    case False
    with that have "r \<in> set rsB" by simp
    with B have "0 < rect_w r" "0 < rect_h r"
      "rect_w r * rect_h r * sumNodeSizes B = (h - hA) * w * sizeBytes (rect_node r)"
      by (auto simp: layout_ok_def mult_ac)
    with area_share_scale [OF this(3) rB sB] show ?thesis by (simp add: mult_ac)
  qed
  from nodes cover area show ?thesis
    unfolding layout_ok_def by blast
qed


lemma fraction_of_positive:
  fixes c r :: rat
  assumes "0 < r" "r < 1" "0 < c"
  shows "0 < c * r" and "c * r < c"
proof -
  show "0 < c * r" using assms by simp
  have "c * r < c * 1" using assms(2,3) by (rule mult_strict_left_mono)
  then show "c * r < c" by simp
qed

lemma recursiveSplit_layout_ok:
  assumes "nodes \<noteq> []" "\<forall>n \<in> set nodes. 0 < sizeBytes n" "0 < w" "0 < h"
  shows "layout_ok nodes x y w h (recursiveSplit nodes x y w h)"
  using assms
proof (induction "length nodes" arbitrary: nodes x y w h rule: less_induct)
  case less
  show ?case
  proof (cases "length nodes = 1")
    case True
    then obtain node where "nodes = [node]"
      by (cases nodes) auto
    with less.prems show ?thesis by (simp add: layout_ok_single)
  next
    case False
    moreover from less.prems(1) have "length nodes \<noteq> 0" by simp
    ultimately have len: "2 \<le> length nodes" by linarith
    let ?s = "sortBySize nodes"
    let ?t = "sumNodeSizes ?s"
    let ?k = "getSplitIndex ?s ?t"
    let ?A = "take ?k ?s"
    let ?B = "drop ?k ?s"
    let ?ratio = "sumNodeSizes ?A / ?t"
    have tpos: "0 < ?t"
      using less.prems(1,2) by (simp add: sumNodeSizes_sortBySize sumNodeSizes_pos)
    have k: "0 < ?k" "?k < length nodes"
      using getSplitIndex_sorted_bounds [OF len tpos] by simp_all
    have lenA: "length ?A < length nodes" and lenB: "length ?B < length nodes"
      using k by (simp_all add: sortBySize_length)
    have nes: "?s \<noteq> []"
      using less.prems(1) sortBySize_length [of nodes] by auto
    have neA: "?A \<noteq> []" and neB: "?B \<noteq> []"
      using k nes by (simp_all add: sortBySize_length)
    have posA: "\<forall>n \<in> set ?A. 0 < sizeBytes n"
      using less.prems(2) by (auto dest: in_set_takeD simp: sortBySize_set)
    have posB: "\<forall>n \<in> set ?B. 0 < sizeBytes n"
      using less.prems(2) by (auto dest: in_set_dropD simp: sortBySize_set)
    have sA: "0 < sumNodeSizes ?A" and sB: "0 < sumNodeSizes ?B"
      using neA posA neB posB by (simp_all add: sumNodeSizes_pos)
    have tAB: "?t = sumNodeSizes ?A + sumNodeSizes ?B"
      using sumNodeSizes_append [of ?A ?B] by simp
    have m: "mset ?A + mset ?B = mset nodes"
      using sortBySize_mset [of nodes] by (simp flip: mset_append)
    have tn: "sumNodeSizes nodes = ?t"
      by (simp add: sumNodeSizes_sortBySize)
    have ratio: "0 < ?ratio" "?ratio < 1"
      using sA sB tAB tpos by simp_all
    have scale: "(c * ?ratio) * sumNodeSizes nodes = c * sumNodeSizes ?A" for c
      using tpos by (simp add: tn)
    show ?thesis
    proof (cases "w > h")
      case True
      let ?wA = "w * ?ratio"
      have wA: "0 < ?wA" "?wA < w"
        using ratio less.prems(3) by (rule fraction_of_positive)+
      have A: "layout_ok ?A x y ?wA h (recursiveSplit ?A x y ?wA h)"
        using lenA neA posA wA(1) less.prems(4) by (rule less.hyps)
      have "0 < w - ?wA" using wA(2) by simp
      with lenB neB posB
      have B: "layout_ok ?B (x + ?wA) y (w - ?wA) h (recursiveSplit ?B (x + ?wA) y (w - ?wA) h)"
        using less.prems(4) by (rule less.hyps)
      have "layout_ok nodes x y w h
          (recursiveSplit ?A x y ?wA h @ recursiveSplit ?B (x + ?wA) y (w - ?wA) h)"
        using A B m wA sA sB scale by (rule layout_ok_hsplit)
      then show ?thesis
        using True by (simp add: recursiveSplit_many [OF len tpos] Let_def)
    next
      case False
      let ?hA = "h * ?ratio"
      have hA: "0 < ?hA" "?hA < h"
        using ratio less.prems(4) by (rule fraction_of_positive)+
      have A: "layout_ok ?A x y w ?hA (recursiveSplit ?A x y w ?hA)"
        using lenA neA posA less.prems(3) hA(1) by (rule less.hyps)
      have "0 < h - ?hA" using hA(2) by simp
      with lenB neB posB less.prems(3)
      have B: "layout_ok ?B x (y + ?hA) w (h - ?hA) (recursiveSplit ?B x (y + ?hA) w (h - ?hA))"
        by (rule less.hyps)
      have "layout_ok nodes x y w h
          (recursiveSplit ?A x y w ?hA @ recursiveSplit ?B x (y + ?hA) w (h - ?hA))"
        using A B m hA sA sB scale by (rule layout_ok_vsplit)
      then show ?thesis
        using False by (simp add: recursiveSplit_many [OF len tpos] Let_def)
    qed
  qed
qed

lemma filter_at_most_one:
  assumes "length (filter P xs) \<le> 1" "i < length xs" "j < length xs" "i \<noteq> j" "P (xs ! i)"
  shows "\<not> P (xs ! j)"
proof
  assume Pj: "P (xs ! j)"
  have two: "2 \<le> length (filter P xs)" if "a < b" "b < length xs" "P (xs ! a)" "P (xs ! b)" for a b
  proof -
    have "xs = take b xs @ drop b xs" by simp
    then have "length (filter P xs) = length (filter P (take b xs)) + length (filter P (drop b xs))"
      by (metis filter_append length_append)
    moreover have "xs ! a \<in> set (take b xs)"
      using that by (auto simp: in_set_conv_nth intro!: exI [of _ a])
    then have "filter P (take b xs) \<noteq> []"
      using that(3) by (auto simp: filter_empty_conv)
    then have "1 \<le> length (filter P (take b xs))"
      by (cases "filter P (take b xs)") auto
    moreover have "xs ! b \<in> set (drop b xs)"
      using that by (auto simp: in_set_conv_nth intro!: exI [of _ 0])
    then have "filter P (drop b xs) \<noteq> []"
      using that(4) by (auto simp: filter_empty_conv)
    then have "1 \<le> length (filter P (drop b xs))"
      by (cases "filter P (drop b xs)") auto
    ultimately show ?thesis by linarith
  qed
  from assms(4) consider "i < j" | "j < i" by linarith
  then show False
  proof cases
    case 1
    from two [OF 1 assms(3) assms(5) Pj] assms(1) show False by simp
  next
    case 2
    from two [OF 2 assms(2) Pj assms(5)] assms(1) show False by simp
  qed
qed


text \<open>
  Claim C9. Whenever the node list has at least two elements and a strictly positive
  total size, the split index computed on the list sorted largest first lies strictly
  between 0 and the length of the list, so group A (the first \<open>splitIndex\<close> nodes) and
  group B (the rest) are both strictly shorter than the list: the recursion of
  \<open>recursiveSplit\<close> is well-founded on the length of the list. (The termination proof
  of \<open>recursiveSplit\<close> above rests on the same bounds.)
\<close>

theorem getSplitIndex_between:
  assumes "2 \<le> length nodes" and "0 < sumNodeSizes nodes"
  shows "0 < getSplitIndex (sortBySize nodes) (sumNodeSizes (sortBySize nodes))
    \<and> getSplitIndex (sortBySize nodes) (sumNodeSizes (sortBySize nodes)) < length nodes
    \<and> length (take (getSplitIndex (sortBySize nodes) (sumNodeSizes (sortBySize nodes)))
          (sortBySize nodes)) < length nodes
    \<and> length (drop (getSplitIndex (sortBySize nodes) (sumNodeSizes (sortBySize nodes)))
          (sortBySize nodes)) < length nodes"
proof -
  from assms(2) have pos: "0 < sumNodeSizes (sortBySize nodes)"
    by (simp add: sumNodeSizes_sortBySize)
  from getSplitIndex_sorted_bounds [OF assms(1) pos] show ?thesis
    by (simp add: sortBySize_length)
qed

theorem getSplitIndex_between_witness:
  "getSplitIndex (sortBySize [ScanNode ''/a'' ''a'' 1 [], ScanNode ''/b'' ''b'' 3 [], ScanNode ''/c'' ''c'' 2 []])
     (sumNodeSizes (sortBySize [ScanNode ''/a'' ''a'' 1 [], ScanNode ''/b'' ''b'' 3 [], ScanNode ''/c'' ''c'' 2 []])) = 1
   \<and> (1::nat) < length [ScanNode ''/a'' ''a'' 1 [], ScanNode ''/b'' ''b'' 3 [], ScanNode ''/c'' ''c'' 2 []]"
proof -
  let ?nodes = "[ScanNode ''/a'' ''a'' 1 [], ScanNode ''/b'' ''b'' 3 [], ScanNode ''/c'' ''c'' 2 []]"
  have h1: "2 \<le> length ?nodes" by simp
  have h2: "0 < sumNodeSizes ?nodes" by (simp add: sumNodeSizes_def)
  have "getSplitIndex (sortBySize ?nodes) (sumNodeSizes (sortBySize ?nodes)) = 1"
    by (simp add: sortBySize_def sumNodeSizes_def getSplitIndex_def)
  with getSplitIndex_between [OF h1 h2] show ?thesis by simp
qed

text \<open>
  Claim C6, at the input where the code departs from it: a list holding one child of
  size zero has total size zero, and \<open>recursiveSplit\<close> returns one rectangle for it,
  the whole given box; the single-node return comes before the check of the total. The
  same return gives a zero-size child next to a child of size 5 a box of width 0: the
  group that holds only the empty child is not dropped.
\<close>

theorem recursiveSplit_single_zero_child:
  "sumNodeSizes [ScanNode ''/empty'' ''empty'' 0 []] = 0
   \<and> recursiveSplit [ScanNode ''/empty'' ''empty'' 0 []] 0 0 800 600 =
       [\<lparr>rect_x = 0, rect_y = 0, rect_w = 800, rect_h = 600,
         rect_node = ScanNode ''/empty'' ''empty'' 0 []\<rparr>]
   \<and> recursiveSplit [ScanNode ''/empty'' ''empty'' 0 [], ScanNode ''/full'' ''full'' 5 []]
         0 0 800 600 =
       [\<lparr>rect_x = 0, rect_y = 0, rect_w = 800, rect_h = 600,
         rect_node = ScanNode ''/full'' ''full'' 5 []\<rparr>,
        \<lparr>rect_x = 800, rect_y = 0, rect_w = 0, rect_h = 600,
         rect_node = ScanNode ''/empty'' ''empty'' 0 []\<rparr>]"
proof -
  let ?empty = "ScanNode ''/empty'' ''empty'' 0 []"
  let ?full = "ScanNode ''/full'' ''full'' 5 []"
  have sorted: "sortBySize [?empty, ?full] = [?full, ?empty]"
    by (simp add: sortBySize_def)
  have "2 \<le> length [?empty, ?full]" by simp
  moreover have "0 < sumNodeSizes (sortBySize [?empty, ?full])"
    by (simp add: sorted sumNodeSizes_def)
  ultimately have
    "recursiveSplit [?empty, ?full] 0 0 800 600 =
       [\<lparr>rect_x = 0, rect_y = 0, rect_w = 800, rect_h = 600, rect_node = ?full\<rparr>,
        \<lparr>rect_x = 800, rect_y = 0, rect_w = 0, rect_h = 600, rect_node = ?empty\<rparr>]"
    by (simp add: recursiveSplit_many sorted sumNodeSizes_def getSplitIndex_def
        recursiveSplit_single)
  then show ?thesis
    by (simp add: sumNodeSizes_def recursiveSplit_single)
qed

text \<open>
  Claim C1. For a non-empty list of nodes with strictly positive sizes and a box of
  positive width and height, \<open>recursiveSplit\<close> returns one rectangle per node (as many
  rectangles as nodes, carrying exactly the given nodes); two different rectangles have
  no point in common; a point lies in some rectangle iff it lies in the given box; each
  rectangle's area over the box's area is its node's size over the total size; and every
  rectangle has positive width and height.
\<close>

theorem recursiveSplit_layout_complete:
  assumes "nodes \<noteq> []" and "\<forall>n \<in> set nodes. 0 < sizeBytes n" and "0 < w" and "0 < h"
  shows "length (recursiveSplit nodes x y w h) = length nodes
    \<and> mset (map rect_node (recursiveSplit nodes x y w h)) = mset nodes
    \<and> (\<forall>i < length nodes. \<forall>j < length nodes. i \<noteq> j \<longrightarrow>
          \<not> (\<exists>p. inside (recursiveSplit nodes x y w h ! i) p \<and> inside (recursiveSplit nodes x y w h ! j) p))
    \<and> (\<forall>p. (\<exists>r \<in> set (recursiveSplit nodes x y w h). inside r p) \<longleftrightarrow> in_rect x y w h p)
    \<and> (\<forall>r \<in> set (recursiveSplit nodes x y w h).
          (rect_w r * rect_h r) / (w * h) = sizeBytes (rect_node r) / sumNodeSizes nodes)
    \<and> (\<forall>r \<in> set (recursiveSplit nodes x y w h). 0 < rect_w r \<and> 0 < rect_h r)"
proof -
  let ?rs = "recursiveSplit nodes x y w h"
  have ok: "layout_ok nodes x y w h ?rs"
    using assms by (rule recursiveSplit_layout_ok)
  then have ms: "mset (map rect_node ?rs) = mset nodes"
    by (simp add: layout_ok_def)
  then have "size (mset (map rect_node ?rs)) = size (mset nodes)" by simp
  then have len: "length ?rs = length nodes" by simp
  have cnt: "length (filter (\<lambda>r. inside r p) ?rs) = (if in_rect x y w h p then 1 else 0)" for p
    using ok unfolding layout_ok_def by blast
  have disj: "\<not> (\<exists>p. inside (?rs ! i) p \<and> inside (?rs ! j) p)"
    if "i < length nodes" "j < length nodes" "i \<noteq> j" for i j
  proof
    assume "\<exists>p. inside (?rs ! i) p \<and> inside (?rs ! j) p"
    then obtain p where p: "inside (?rs ! i) p" "inside (?rs ! j) p" by blast
    have "length (filter (\<lambda>r. inside r p) ?rs) \<le> 1" by (simp add: cnt)
    from filter_at_most_one [of "\<lambda>r. inside r p" ?rs i j, OF this] that len p
    show False by simp
  qed
  have cover: "(\<exists>r \<in> set ?rs. inside r p) \<longleftrightarrow> in_rect x y w h p" for p
  proof -
    have "(\<exists>r \<in> set ?rs. inside r p) \<longleftrightarrow> filter (\<lambda>r. inside r p) ?rs \<noteq> []"
      by (auto simp: filter_empty_conv)
    also have "\<dots> \<longleftrightarrow> 0 < length (filter (\<lambda>r. inside r p) ?rs)" by simp
    also have "\<dots> \<longleftrightarrow> in_rect x y w h p" by (simp add: cnt)
    finally show ?thesis .
  qed
  have tpos: "0 < sumNodeSizes nodes"
    using assms(1,2) by (rule sumNodeSizes_pos)
  have area: "(rect_w r * rect_h r) / (w * h) = sizeBytes (rect_node r) / sumNodeSizes nodes"
    if "r \<in> set ?rs" for r
  proof -
    from ok that have "rect_w r * rect_h r * sumNodeSizes nodes = w * h * sizeBytes (rect_node r)"
      by (simp add: layout_ok_def)
    then show ?thesis
      using tpos assms(3,4) by (simp add: field_simps)
  qed
  have sides: "0 < rect_w r \<and> 0 < rect_h r" if "r \<in> set ?rs" for r
    using ok that by (simp add: layout_ok_def)
  from len ms disj cover area sides show ?thesis by blast
qed

theorem recursiveSplit_layout_complete_witness:
  "length (recursiveSplit [ScanNode ''/a'' ''a'' 1 [], ScanNode ''/b'' ''b'' 3 []] 0 0 8 2) = 2
   \<and> mset (map rect_node (recursiveSplit [ScanNode ''/a'' ''a'' 1 [], ScanNode ''/b'' ''b'' 3 []] 0 0 8 2))
       = mset [ScanNode ''/a'' ''a'' 1 [], ScanNode ''/b'' ''b'' 3 []]
   \<and> \<not> (\<exists>p. inside (recursiveSplit [ScanNode ''/a'' ''a'' 1 [], ScanNode ''/b'' ''b'' 3 []] 0 0 8 2 ! 0) p
            \<and> inside (recursiveSplit [ScanNode ''/a'' ''a'' 1 [], ScanNode ''/b'' ''b'' 3 []] 0 0 8 2 ! 1) p)
   \<and> (\<exists>r \<in> set (recursiveSplit [ScanNode ''/a'' ''a'' 1 [], ScanNode ''/b'' ''b'' 3 []] 0 0 8 2).
         inside r (7, 1))"
proof -
  let ?nodes = "[ScanNode ''/a'' ''a'' 1 [], ScanNode ''/b'' ''b'' 3 []]"
  have h1: "?nodes \<noteq> []" by simp
  have h2: "\<forall>n \<in> set ?nodes. 0 < sizeBytes n" by simp
  have h3: "(0::rat) < 8" and h4: "(0::rat) < 2" by simp_all
  have box: "in_rect 0 0 8 2 (7, 1)" by (simp add: in_rect_def)
  note layout = recursiveSplit_layout_complete [OF h1 h2 h3 h4, of 0 0]
  note c1 = layout [THEN conjunct1]
  note c2 = layout [THEN conjunct2, THEN conjunct1]
  note c3 = layout [THEN conjunct2, THEN conjunct2, THEN conjunct1]
  note c4 = layout [THEN conjunct2, THEN conjunct2, THEN conjunct2, THEN conjunct1]
  have d: "\<not> (\<exists>p. inside (recursiveSplit ?nodes 0 0 8 2 ! 0) p
                  \<and> inside (recursiveSplit ?nodes 0 0 8 2 ! 1) p)"
    using c3 [rule_format, of 0 1] by simp
  have e: "\<exists>r \<in> set (recursiveSplit ?nodes 0 0 8 2). inside r (7, 1)"
    using c4 box by blast
  from c1 c2 d e show ?thesis by simp
qed

section \<open>Predicate engine (filter matchers and search queries)\<close>

subsection \<open>JavaScript string operations\<close>

text \<open>
  A JavaScript string is modelled as a \<open>string\<close> of ASCII characters: \<open>toLowerCase\<close>
  maps \<open>A\<close>..\<open>Z\<close> to \<open>a\<close>..\<open>z\<close>, and the white space of \<open>trim\<close> and of the
  regular expression class \<open>\s\<close> is space, tab, line feed, vertical tab, form feed and
  carriage return. \<open>str_includes\<close> is \<open>String.prototype.includes\<close>; \<open>lastIndexOf\<close>
  and \<open>indexOf\<close> return \<open>-1\<close> when the character does not occur; \<open>splitOn\<close> is
  \<open>split\<close> on a one-character separator class (it keeps empty pieces).
\<close>

definition toLowerChar :: "char \<Rightarrow> char" where
  "toLowerChar c =
     (case map_of (zip ''ABCDEFGHIJKLMNOPQRSTUVWXYZ'' ''abcdefghijklmnopqrstuvwxyz'') c of
        Some l \<Rightarrow> l
      | None \<Rightarrow> c)"

definition toLowerCase :: "string \<Rightarrow> string" where
  "toLowerCase s = map toLowerChar s"

definition isWhitespace :: "char \<Rightarrow> bool" where
  "isWhitespace c = (c \<in> set [CHR '' '', CHR 0x09, CHR 0x0A, CHR 0x0B, CHR 0x0C, CHR 0x0D])"

definition trim :: "string \<Rightarrow> string" where
  "trim s = rev (dropWhile isWhitespace (rev (dropWhile isWhitespace s)))"

fun startsWith :: "string \<Rightarrow> string \<Rightarrow> bool" where
  "startsWith s [] = True"
| "startsWith [] (c # cs) = False"
| "startsWith (d # ds) (c # cs) = (d = c \<and> startsWith ds cs)"

fun str_includes :: "string \<Rightarrow> string \<Rightarrow> bool" where
  "str_includes [] t = (t = [])"
| "str_includes (c # cs) t = (startsWith (c # cs) t \<or> str_includes cs t)"

fun lastIndexOf_from :: "string \<Rightarrow> char \<Rightarrow> nat \<Rightarrow> int \<Rightarrow> int" where
  "lastIndexOf_from [] c i found = found"
| "lastIndexOf_from (d # ds) c i found =
     lastIndexOf_from ds c (i + 1) (if d = c then int i else found)"

definition lastIndexOf :: "string \<Rightarrow> char \<Rightarrow> int" where
  "lastIndexOf s c = lastIndexOf_from s c 0 (- 1)"

fun indexOf_from :: "string \<Rightarrow> char \<Rightarrow> nat \<Rightarrow> int" where
  "indexOf_from [] c i = - 1"
| "indexOf_from (d # ds) c i = (if d = c then int i else indexOf_from ds c (i + 1))"

definition indexOf :: "string \<Rightarrow> char \<Rightarrow> int" where
  "indexOf s c = indexOf_from s c 0"

fun splitOn :: "(char \<Rightarrow> bool) \<Rightarrow> string \<Rightarrow> string list" where
  "splitOn sep [] = [[]]"
| "splitOn sep (c # cs) =
     (if sep c then [] # splitOn sep cs
      else (case splitOn sep cs of [] \<Rightarrow> [[c]] | piece # pieces \<Rightarrow> (c # piece) # pieces))"

subsection \<open>Extensions, lists and sizes\<close>

text \<open>\<open>getPathExtension\<close>: \<open>path.slice(lastDot + 1).toLowerCase()\<close>, or \<open>null\<close> when
  \<open>lastDot <= 0\<close> or \<open>lastDot === path.length - 1\<close>.\<close>

definition getPathExtension :: "string \<Rightarrow> string option" where
  "getPathExtension path =
     (let lastDot = lastIndexOf path (CHR ''.'')
      in if lastDot \<le> 0 \<or> lastDot = int (length path) - 1 then None
         else Some (toLowerCase (drop (nat (lastDot + 1)) path)))"


text \<open>
  \<open>parseListInput\<close>: split on comma or line feed, skip empty pieces, trim, strip one
  leading dot (\<open>replace(/^\./, "")\<close>), lower-case, skip what is empty or already seen.
\<close>

definition stripLeadingDot :: "string \<Rightarrow> string" where
  "stripLeadingDot s = (case s of [] \<Rightarrow> [] | c # cs \<Rightarrow> if c = CHR ''.'' then cs else s)"

fun parseListInput_loop :: "string list \<Rightarrow> string list \<Rightarrow> string set \<Rightarrow> string list" where
  "parseListInput_loop [] result seen = result"
| "parseListInput_loop (raw # parts) result seen =
     (if raw = [] then parseListInput_loop parts result seen
      else
        let cleaned = toLowerCase (stripLeadingDot (trim raw))
        in if cleaned = [] \<or> cleaned \<in> seen then parseListInput_loop parts result seen
           else parseListInput_loop parts (result @ [cleaned]) (insert cleaned seen))"

definition parseListInput :: "string \<Rightarrow> string list" where
  "parseListInput v =
     parseListInput_loop (splitOn (\<lambda>c. c = CHR '','' \<or> c = CHR 0x0A) v) [] {}"

text \<open>
  \<open>parseSizeValue\<close>: the regular expression \<open>^(\d+(?:\.\d+)?)(b|kb|mb|gb|tb)?$\<close> on
  the trimmed, lower-cased input, written out: the digits, an optional fraction (a dot
  followed by at least one digit), an optional unit, and nothing else. \<open>Number\<close> of the
  decimal is its exact rational value, \<open>Math.round\<close> rounds half up.
\<close>

definition SIZE_UNITS :: "(string \<times> rat) list" where
  "SIZE_UNITS = [(''b'', 1), (''kb'', 1024), (''mb'', 1024 ^ 2), (''gb'', 1024 ^ 3), (''tb'', 1024 ^ 4)]"

definition isDigit :: "char \<Rightarrow> bool" where
  "isDigit c = (c \<in> set ''0123456789'')"

definition digitValue :: "char \<Rightarrow> nat" where
  "digitValue c = (case map_of (zip ''0123456789'' [0, 1, 2, 3, 4, 5, 6, 7, 8, 9]) c of
                     Some d \<Rightarrow> d | None \<Rightarrow> 0)"

definition digitsValue :: "string \<Rightarrow> nat" where
  "digitsValue ds = foldl (\<lambda>acc c. 10 * acc + digitValue c) 0 ds"

definition decimalValue :: "string \<Rightarrow> string \<Rightarrow> rat" where
  "decimalValue wholeDigits fracDigits = of_nat (digitsValue wholeDigits) + of_nat (digitsValue fracDigits) / 10 ^ length fracDigits"

definition mathRound :: "rat \<Rightarrow> rat" where
  "mathRound v = of_int \<lfloor>v + 1 / 2\<rfloor>"

definition parseSizeValue :: "string \<Rightarrow> rat option" where
  "parseSizeValue raw =
     (let s = toLowerCase (trim raw);
          wholeDigits = takeWhile isDigit s;
          afterWhole = dropWhile isDigit s;
          hasFraction = (case afterWhole of [] \<Rightarrow> False
                         | c # cs \<Rightarrow> c = CHR ''.'' \<and> takeWhile isDigit cs \<noteq> []);
          fracDigits = (if hasFraction then takeWhile isDigit (tl afterWhole) else []);
          unit = (if hasFraction then dropWhile isDigit (tl afterWhole) else afterWhole)
      in if wholeDigits = [] then None
         else (case map_of SIZE_UNITS (if unit = [] then ''b'' else unit) of
                 None \<Rightarrow> None
               | Some multiplier \<Rightarrow> Some (mathRound (decimalValue wholeDigits fracDigits * multiplier))))"

subsection \<open>Regular expressions\<close>

text \<open>
  The regular expression engine belongs to the platform, not to the repository, so it
  is a parameter: \<open>compiles pattern flags\<close> says whether \<open>new RegExp(pattern, flags)\<close>
  returns (rather than throws), and \<open>exec source flags start s\<close> is the engine's
  match of the expression in \<open>s\<close> from index \<open>start\<close>: the index where the match ends,
  or \<open>None\<close>.

  A \<open>RegExp\<close> object is its source, its flags and its \<open>lastIndex\<close>, which a new
  object has at 0. \<open>regexTest\<close> is \<open>RegExp.prototype.test\<close>: under the \<open>g\<close> or the
  \<open>y\<close> flag the match starts at \<open>lastIndex\<close>, and the call stores the end of the
  match there, or 0 when there is none; without these flags the match starts at 0 and
  the object is not changed. The matchers and the search parameters are built once and
  kept across entries, so \<open>regexTest\<close> returns the changed object with its answer.
  \<open>regexTestEither\<close> is \<open>r.test(path) || r.test(name)\<close>: the name is tested only when
  the path did not match. \<open>regexMatches\<close> is the answer of a new object: the
  engine's match from index 0.
\<close>

datatype RegExp = RegExp (re_source: string) (re_flags: string) (re_lastIndex: nat)

type_synonym RegexEngine = "string \<Rightarrow> string \<Rightarrow> nat \<Rightarrow> string \<Rightarrow> nat option"

definition regexStateful :: "RegExp \<Rightarrow> bool" where
  "regexStateful r = (CHR ''g'' \<in> set (re_flags r) \<or> CHR ''y'' \<in> set (re_flags r))"

definition regexTest :: "RegexEngine \<Rightarrow> RegExp \<Rightarrow> string \<Rightarrow> bool \<times> RegExp" where
  "regexTest exec r s =
     (if regexStateful r then
        (case exec (re_source r) (re_flags r) (re_lastIndex r) s of
           None \<Rightarrow> (False, RegExp (re_source r) (re_flags r) 0)
         | Some matchEnd \<Rightarrow> (True, RegExp (re_source r) (re_flags r) matchEnd))
      else (exec (re_source r) (re_flags r) 0 s \<noteq> None, r))"

definition regexTestEither :: "RegexEngine \<Rightarrow> RegExp \<Rightarrow> string \<Rightarrow> string \<Rightarrow> bool \<times> RegExp" where
  "regexTestEither exec r path name =
     (case regexTest exec r path of
        (True, r1) \<Rightarrow> (True, r1)
      | (False, r1) \<Rightarrow> regexTest exec r1 name)"


definition parseRegexToken :: "(string \<Rightarrow> string \<Rightarrow> bool) \<Rightarrow> string \<Rightarrow> RegExp option" where
  "parseRegexToken compiles v =
     (let trimmed = trim v
      in if trimmed = [] then None
         else if startsWith trimmed ''/'' \<and> lastIndexOf trimmed (CHR ''/'') > 0 then
           let lastSlash = nat (lastIndexOf trimmed (CHR ''/''));
               pattern = take (lastSlash - 1) (drop 1 trimmed);
               rest = drop (lastSlash + 1) trimmed;
               flags = (if rest = [] then ''i'' else rest)
           in if compiles pattern flags then Some (RegExp pattern flags 0) else None
         else if compiles trimmed ''i'' then Some (RegExp trimmed ''i'' 0) else None)"

subsection \<open>The search query language\<close>

record SearchParams =
  terms :: "string list"
  nameTerms :: "string list"
  pathTerms :: "string list"
  exts :: "string set"
  regex :: "RegExp option"
  minSize :: "rat option"
  maxSize :: "rat option"

record ScanFile =
  file_path :: string
  file_name :: string
  file_sizeBytes :: rat

text \<open>
  \<open>applySizeToken\<close> matches \<open>^size(<=|>=|=|<|>)(.+)$\<close>: the alternatives are tried in
  that order, and one is taken only if at least one character that is no line terminator
  follows up to the end of the token. The function returns whether it consumed the token,
  together with the updated parameters.
\<close>

definition isLineTerminator :: "char \<Rightarrow> bool" where
  "isLineTerminator c = (c = CHR 0x0A \<or> c = CHR 0x0D)"

definition matchSizeToken :: "string \<Rightarrow> (string \<times> string) option" where
  "matchSizeToken token =
     (if startsWith token ''size'' then
        (case filter (\<lambda>operator. startsWith (drop 4 token) operator \<and>
                        drop (4 + length operator) token \<noteq> [] \<and>
                        \<not> list_ex isLineTerminator (drop (4 + length operator) token))
                [''<='', ''>='', ''='', ''<'', ''>''] of
           [] \<Rightarrow> None
         | operator # _ \<Rightarrow> Some (operator, drop (4 + length operator) token))
      else None)"

definition applySizeToken :: "SearchParams \<Rightarrow> string \<Rightarrow> bool \<times> SearchParams" where
  "applySizeToken params token =
     (case matchSizeToken token of
        None \<Rightarrow> (False, params)
      | Some (operator, sizeToken) \<Rightarrow>
          if sizeToken = [] then (True, params)
          else (case parseSizeValue sizeToken of
                  None \<Rightarrow> (True, params)
                | Some sizeValue \<Rightarrow>
                    let p1 = (if operator = ''>'' \<or> operator = ''>=''
                              then params\<lparr>minSize := Some sizeValue\<rparr> else params);
                        p2 = (if operator = ''<'' \<or> operator = ''<=''
                              then p1\<lparr>maxSize := Some sizeValue\<rparr> else p1);
                        p3 = (if operator = ''=''
                              then p2\<lparr>minSize := Some sizeValue, maxSize := Some sizeValue\<rparr>
                              else p2)
                    in (True, p3)))"

definition applyKeyToken ::
  "(string \<Rightarrow> string \<Rightarrow> bool) \<Rightarrow> SearchParams \<Rightarrow> string \<Rightarrow> bool \<times> SearchParams" where
  "applyKeyToken compiles params token =
     (let colonIndex = indexOf token (CHR '':'')
      in if colonIndex \<le> 0 then (False, params)
         else
           let key = take (nat colonIndex) token;
               v = drop (nat colonIndex + 1) token
           in if key = ''name'' then (True, params\<lparr>nameTerms := nameTerms params @ [v]\<rparr>)
              else if key = ''path'' then (True, params\<lparr>pathTerms := pathTerms params @ [v]\<rparr>)
              else if key = ''ext'' then
                (True, params\<lparr>exts := fold (\<lambda>ext acc. if ext \<noteq> [] then insert ext acc else acc)
                                          (parseListInput v) (exts params)\<rparr>)
              else if key = ''regex'' then
                (case parseRegexToken compiles v of
                   Some r \<Rightarrow> (True, params\<lparr>regex := Some r\<rparr>)
                 | None \<Rightarrow> (True, params))
              else (True, params\<lparr>terms := terms params @ [token]\<rparr>))"

fun parseSearchQuery_loop ::
  "(string \<Rightarrow> string \<Rightarrow> bool) \<Rightarrow> string list \<Rightarrow> SearchParams \<Rightarrow> SearchParams" where
  "parseSearchQuery_loop compiles [] params = params"
| "parseSearchQuery_loop compiles (rawToken # tokens) params =
     (if rawToken = [] then parseSearchQuery_loop compiles tokens params
      else
        let token = toLowerCase rawToken
        in case applySizeToken params token of
             (True, p1) \<Rightarrow> parseSearchQuery_loop compiles tokens p1
           | (False, p1) \<Rightarrow>
               (case applyKeyToken compiles p1 token of
                  (True, p2) \<Rightarrow> parseSearchQuery_loop compiles tokens p2
                | (False, p2) \<Rightarrow>
                    parseSearchQuery_loop compiles tokens (p2\<lparr>terms := terms p2 @ [token]\<rparr>)))"

text \<open>
  \<open>parseSearchQuery\<close>: \<open>query.trim().split(/\s+/).filter(Boolean)\<close> keeps the non-empty
  pieces between white space, which are the non-empty pieces of a split on single white
  space characters.
\<close>

definition parseSearchQuery :: "(string \<Rightarrow> string \<Rightarrow> bool) \<Rightarrow> string \<Rightarrow> SearchParams" where
  "parseSearchQuery compiles query =
     parseSearchQuery_loop compiles
       (filter (\<lambda>t. t \<noteq> []) (splitOn isWhitespace (trim query)))
       \<lparr>terms = [], nameTerms = [], pathTerms = [], exts = {}, regex = None,
        minSize = None, maxSize = None\<rparr>"

fun matchesAllTokens :: "string \<Rightarrow> string list \<Rightarrow> bool" where
  "matchesAllTokens v [] = True"
| "matchesAllTokens v (token # tokens) =
     (if token = [] then matchesAllTokens v tokens
      else if \<not> str_includes v token then False
      else matchesAllTokens v tokens)"

fun matchesSearchTerms :: "string \<Rightarrow> string \<Rightarrow> string list \<Rightarrow> bool" where
  "matchesSearchTerms name path [] = True"
| "matchesSearchTerms name path (term # rest) =
     (if term = [] then matchesSearchTerms name path rest
      else if \<not> str_includes name term \<and> \<not> str_includes path term then False
      else matchesSearchTerms name path rest)"

definition matchesSizeConstraints :: "rat \<Rightarrow> rat option \<Rightarrow> rat option \<Rightarrow> bool" where
  "matchesSizeConstraints bytes lo hi =
     (if lo \<noteq> None \<and> bytes < the lo then False
      else if hi \<noteq> None \<and> bytes > the hi then False
      else True)"

text \<open>
  \<open>matchesRegexConstraint\<close> and \<open>matchesSearchEntry\<close> return their answer and the
  regular expression (the parameters holding it) as the tests left it.
\<close>

definition matchesRegexConstraint ::
  "RegexEngine \<Rightarrow> string \<Rightarrow> string \<Rightarrow> RegExp option \<Rightarrow> bool \<times> RegExp option" where
  "matchesRegexConstraint exec name path re =
     (case re of
        Some r \<Rightarrow>
          (case regexTestEither exec r path name of
             (False, r1) \<Rightarrow> (False, Some r1)
           | (True, r1) \<Rightarrow> (True, Some r1))
      | None \<Rightarrow> (True, None))"

definition matchesSearchEntry ::
  "RegexEngine \<Rightarrow> ScanFile \<Rightarrow> SearchParams \<Rightarrow> bool \<times> SearchParams" where
  "matchesSearchEntry exec entry params =
     (let name = toLowerCase (file_name entry);
          path = toLowerCase (file_path entry)
      in if \<not> matchesAllTokens name (nameTerms params) then (False, params)
         else if \<not> matchesAllTokens path (pathTerms params) then (False, params)
         else if \<not> matchesSearchTerms name path (terms params) then (False, params)
         else if exts params \<noteq> {} \<and>
                 (case getPathExtension path of
                    None \<Rightarrow> True
                  | Some ext \<Rightarrow> ext = [] \<or> ext \<notin> exts params) then (False, params)
         else if \<not> matchesSizeConstraints (file_sizeBytes entry) (minSize params) (maxSize params)
           then (False, params)
         else (case matchesRegexConstraint exec name path (regex params) of
                 (answer, re) \<Rightarrow> (answer, params\<lparr>regex := re\<rparr>)))"


subsection \<open>The structural filter\<close>






definition matchesExtensionFilters :: "string \<Rightarrow> string set \<Rightarrow> string set \<Rightarrow> bool" where
  "matchesExtensionFilters path incl excl =
     (let ext = getPathExtension path
      in if incl \<noteq> {} \<and> (case ext of None \<Rightarrow> True | Some e \<Rightarrow> e = [] \<or> e \<notin> incl) then False
         else if excl \<noteq> {} \<and> (case ext of None \<Rightarrow> False | Some e \<Rightarrow> e \<noteq> [] \<and> e \<in> excl)
           then False
         else True)"




subsection \<open>The constraint categories, as the specification words them\<close>











subsection \<open>Facts about the string operations and the matchers\<close>

lemma startsWith_iff: "startsWith s t \<longleftrightarrow> (\<exists>suf. s = t @ suf)"
  by (induction s t rule: startsWith.induct) auto

lemma str_includes_iff: "str_includes s t \<longleftrightarrow> (\<exists>pre suf. s = pre @ t @ suf)"
proof (induction s)
  case Nil
  show ?case by auto
next
  case (Cons c cs)
  show ?case
  proof
    assume "str_includes (c # cs) t"
    then consider "startsWith (c # cs) t" | "str_includes cs t" by auto
    then show "\<exists>pre suf. c # cs = pre @ t @ suf"
    proof cases
      case 1
      then obtain suf where "c # cs = t @ suf" by (auto simp: startsWith_iff)
      then have "c # cs = [] @ t @ suf" by simp
      then show ?thesis by blast
    next
      case 2
      with Cons.IH obtain pre suf where "cs = pre @ t @ suf" by blast
      then have "c # cs = (c # pre) @ t @ suf" by simp
      then show ?thesis by blast
    qed
  next
    assume "\<exists>pre suf. c # cs = pre @ t @ suf"
    then obtain pre suf where ps: "c # cs = pre @ t @ suf" by blast
    show "str_includes (c # cs) t"
    proof (cases pre)
      case Nil
      with ps have "startsWith (c # cs) t" by (auto simp: startsWith_iff)
      then show ?thesis by simp
    next
      case (Cons d pre')
      with ps have "cs = pre' @ t @ suf" by simp
      with Cons.IH have "str_includes cs t" by blast
      then show ?thesis by simp
    qed
  qed
qed

lemma lastIndexOf_from_absent: "c \<notin> set s \<Longrightarrow> lastIndexOf_from s c i found = found"
  by (induction s arbitrary: i found) auto

lemma lastIndexOf_from_last:
  "c \<notin> set suf \<Longrightarrow> lastIndexOf_from (pre @ c # suf) c i found = int (i + length pre)"
  by (induction pre arbitrary: i found) (auto simp: lastIndexOf_from_absent)

lemma lastIndexOf_absent: "c \<notin> set s \<Longrightarrow> lastIndexOf s c = - 1"
  by (simp add: lastIndexOf_def lastIndexOf_from_absent)

lemma lastIndexOf_last: "c \<notin> set suf \<Longrightarrow> lastIndexOf (pre @ c # suf) c = int (length pre)"
  by (simp add: lastIndexOf_def lastIndexOf_from_last)

lemma getPathExtension_no_dot: "CHR ''.'' \<notin> set path \<Longrightarrow> getPathExtension path = None"
  by (simp add: getPathExtension_def lastIndexOf_absent)

lemma getPathExtension_last_dot:
  "CHR ''.'' \<notin> set suf \<Longrightarrow>
     getPathExtension (pre @ CHR ''.'' # suf) =
       (if pre = [] \<or> suf = [] then None else Some (toLowerCase suf))"
proof -
  assume "CHR ''.'' \<notin> set suf"
  then have "lastIndexOf (pre @ CHR ''.'' # suf) (CHR ''.'') = int (length pre)"
    by (rule lastIndexOf_last)
  moreover have "nat (int (length pre) + 1) = Suc (length pre)" by simp
  ultimately show ?thesis
    by (simp add: getPathExtension_def Let_def)
qed

lemma getPathExtension_nonempty: "getPathExtension path = Some e \<Longrightarrow> e \<noteq> []"
proof (cases "CHR ''.'' \<in> set path")
  case False
  assume "getPathExtension path = Some e"
  with False show ?thesis by (simp add: getPathExtension_no_dot)
next
  case True
  assume e: "getPathExtension path = Some e"
  from True obtain pre suf where "path = pre @ CHR ''.'' # suf" "CHR ''.'' \<notin> set suf"
    by (auto dest: split_list_last)
  with e show ?thesis
    by (auto simp: getPathExtension_last_dot toLowerCase_def split: if_splits)
qed


lemma matchesExtensionFilters_iff:
  "matchesExtensionFilters path incl excl \<longleftrightarrow>
     (incl = {} \<or> (\<exists>e. getPathExtension path = Some e \<and> e \<in> incl))
     \<and> \<not> (\<exists>e. getPathExtension path = Some e \<and> e \<in> excl)"
  by (auto simp: matchesExtensionFilters_def Let_def dest: getPathExtension_nonempty
      split: option.splits)














lemmas predicate_defs = parseSearchQuery_def trim_def isWhitespace_def toLowerCase_def toLowerChar_def
  applySizeToken_def matchSizeToken_def isLineTerminator_def parseSizeValue_def isDigit_def
  SIZE_UNITS_def mathRound_def decimalValue_def digitsValue_def digitValue_def
  applyKeyToken_def indexOf_def parseListInput_def stripLeadingDot_def

lemma parseSearchQuery_example:
  "parseSearchQuery compiles ''size>10mb ext:png,jpg name:vacation'' =
     \<lparr>terms = [], nameTerms = [''vacation''], pathTerms = [], exts = {''jpg'', ''png''},
      regex = None, minSize = Some 10485760, maxSize = None\<rparr>"
  by (simp add: predicate_defs floor_eq_iff)

lemma parseSearchQuery_ext_only:
  "parseSearchQuery compiles ''ext:png,jpg'' =
     \<lparr>terms = [], nameTerms = [], pathTerms = [], exts = {''jpg'', ''png''},
      regex = None, minSize = None, maxSize = None\<rparr>"
  by (simp add: predicate_defs)

lemma parseSearchQuery_pseudo_ext:
  "parseSearchQuery compiles ''ext:d/readme'' =
     \<lparr>terms = [], nameTerms = [], pathTerms = [], exts = {''d/readme''},
      regex = None, minSize = None, maxSize = None\<rparr>"
  by (simp add: predicate_defs)

lemmas matcher_defs = matchesSearchEntry_def toLowerCase_def toLowerChar_def getPathExtension_def
  lastIndexOf_def matchesSizeConstraints_def matchesRegexConstraint_def

text \<open>
  Claim C5. The query \<open>size>10mb ext:png,jpg name:vacation\<close> compiles to a minimum size
  of 10 * 1024^2 bytes, the extensions png and jpg and the name term vacation. It matches
  the 15 MB entry named vacation_photo.png at /pics/vacation_photo.png, and it matches no
  15 MB entry named report.pdf, whatever its path; the extension constraint alone
  (\<open>ext:png,jpg\<close>) already rejects report.pdf at a path that ends in its name. This
  holds for every regular expression engine.
\<close>

theorem query_example_matches:
  "fst (matchesSearchEntry exec
      \<lparr>file_path = ''/pics/vacation_photo.png'', file_name = ''vacation_photo.png'',
       file_sizeBytes = 15 * 1024 ^ 2\<rparr>
      (parseSearchQuery compiles ''size>10mb ext:png,jpg name:vacation''))
   \<and> \<not> fst (matchesSearchEntry exec
      \<lparr>file_path = anyPath, file_name = ''report.pdf'', file_sizeBytes = 15 * 1024 ^ 2\<rparr>
      (parseSearchQuery compiles ''size>10mb ext:png,jpg name:vacation''))
   \<and> \<not> fst (matchesSearchEntry exec
      \<lparr>file_path = ''/docs/report.pdf'', file_name = ''report.pdf'',
       file_sizeBytes = 15 * 1024 ^ 2\<rparr>
      (parseSearchQuery compiles ''ext:png,jpg''))"
  unfolding parseSearchQuery_example parseSearchQuery_ext_only
  by (simp add: matcher_defs)




text \<open>
  Claim C10, as stated, fails in one place: \<open>getPathExtension\<close> also returns \<open>null\<close>
  for a path with no dot at all (\<open>lastIndexOf\<close> is \<open>-1\<close>), where no last dot is at index
  0 or at the end.
\<close>

theorem getPathExtension_no_dot_example:
  "getPathExtension ''readme'' = None \<and> CHR ''.'' \<notin> set ''readme''"
  by (simp add: getPathExtension_def lastIndexOf_def)

text \<open>
  Claim C10, amended. \<open>getPathExtension\<close> returns the lower-cased text after the last
  dot of the whole path string; it returns \<open>null\<close> exactly when the path has no dot, or
  its last dot is at index 0 or is the final character. So /data.d/readme has the
  pseudo-extension d/readme, which contains a path separator. The extension filter and
  the \<open>ext:\<close> constraint of a query treat a path with extension \<open>e\<close> by membership of
  \<open>e\<close> in their sets: the filter that excludes d/readme rejects /data.d/readme and
  accepts /data/readme, and the query \<open>ext:d/readme\<close> matches /data.d/readme and not
  /data/readme.
\<close>

theorem getPathExtension_last_dot_of_path:
  "(CHR ''.'' \<notin> set path \<longrightarrow> getPathExtension path = None)
   \<and> (CHR ''.'' \<notin> set suf \<longrightarrow>
        getPathExtension (pre @ CHR ''.'' # suf) =
          (if pre = [] \<or> suf = [] then None else Some (toLowerCase suf)))
   \<and> getPathExtension ''/data.d/readme'' = Some ''d/readme''
   \<and> (getPathExtension p = Some e \<longrightarrow>
        matchesExtensionFilters p incl excl = ((incl = {} \<or> e \<in> incl) \<and> e \<notin> excl))
   \<and> (getPathExtension (toLowerCase (file_path entry)) = Some e \<longrightarrow>
        fst (matchesSearchEntry exec entry
          \<lparr>terms = [], nameTerms = [], pathTerms = [], exts = wanted, regex = None,
           minSize = None, maxSize = None\<rparr>) = (wanted = {} \<or> e \<in> wanted))
   \<and> \<not> matchesExtensionFilters ''/data.d/readme'' {} {''d/readme''}
   \<and> matchesExtensionFilters ''/data/readme'' {} {''d/readme''}
   \<and> fst (matchesSearchEntry exec
        \<lparr>file_path = ''/data.d/readme'', file_name = ''readme'', file_sizeBytes = bytes\<rparr>
        (parseSearchQuery compiles ''ext:d/readme''))
   \<and> \<not> fst (matchesSearchEntry exec
        \<lparr>file_path = ''/data/readme'', file_name = ''readme'', file_sizeBytes = bytes\<rparr>
        (parseSearchQuery compiles ''ext:d/readme''))"
proof -
  have a: "CHR ''.'' \<notin> set path \<longrightarrow> getPathExtension path = None"
    by (simp add: getPathExtension_no_dot)
  have b: "CHR ''.'' \<notin> set suf \<longrightarrow>
        getPathExtension (pre @ CHR ''.'' # suf) =
          (if pre = [] \<or> suf = [] then None else Some (toLowerCase suf))"
    using getPathExtension_last_dot [of suf pre] by blast
  have c: "getPathExtension ''/data.d/readme'' = Some ''d/readme''"
    by (simp add: getPathExtension_def lastIndexOf_def toLowerCase_def toLowerChar_def)
  have c': "getPathExtension ''/data/readme'' = None"
    by (simp add: getPathExtension_def lastIndexOf_def)
  have d: "getPathExtension p = Some e \<longrightarrow>
        matchesExtensionFilters p incl excl = ((incl = {} \<or> e \<in> incl) \<and> e \<notin> excl)"
    by (auto simp: matchesExtensionFilters_iff)
  have f: "getPathExtension (toLowerCase (file_path entry)) = Some e \<longrightarrow>
        fst (matchesSearchEntry exec entry
          \<lparr>terms = [], nameTerms = [], pathTerms = [], exts = wanted, regex = None,
           minSize = None, maxSize = None\<rparr>) = (wanted = {} \<or> e \<in> wanted)"
    by (auto simp: matchesSearchEntry_def Let_def matchesSizeConstraints_def
        matchesRegexConstraint_def dest: getPathExtension_nonempty)
  have g: "\<not> matchesExtensionFilters ''/data.d/readme'' {} {''d/readme''}"
    by (simp add: matchesExtensionFilters_iff c)
  have h: "matchesExtensionFilters ''/data/readme'' {} {''d/readme''}"
    by (simp add: matchesExtensionFilters_iff c')
  have low1: "toLowerCase ''/data.d/readme'' = ''/data.d/readme''"
    and low2: "toLowerCase ''/data/readme'' = ''/data/readme''"
    and low3: "toLowerCase ''readme'' = ''readme''"
    by (simp_all add: toLowerCase_def toLowerChar_def)
  have i: "fst (matchesSearchEntry exec
        \<lparr>file_path = ''/data.d/readme'', file_name = ''readme'', file_sizeBytes = bytes\<rparr>
        (parseSearchQuery compiles ''ext:d/readme''))"
    unfolding parseSearchQuery_pseudo_ext
    by (simp add: matchesSearchEntry_def low1 low3 c matchesSizeConstraints_def
        matchesRegexConstraint_def)
  have j: "\<not> fst (matchesSearchEntry exec
        \<lparr>file_path = ''/data/readme'', file_name = ''readme'', file_sizeBytes = bytes\<rparr>
        (parseSearchQuery compiles ''ext:d/readme''))"
    unfolding parseSearchQuery_pseudo_ext
    by (simp add: matchesSearchEntry_def low2 low3 c')
  from a b c d f g h i j show ?thesis by blast
qed

theorem getPathExtension_last_dot_of_path_witness:
  "getPathExtension ''notes'' = None
   \<and> getPathExtension (''archive.tar'' @ CHR ''.'' # ''GZ'') = Some ''gz''
   \<and> matchesExtensionFilters ''/data.d/readme'' {''d/readme''} {}"
proof -
  note t = getPathExtension_last_dot_of_path
    [of "''notes''" "''GZ''" "''archive.tar''" "''/data.d/readme''" "''d/readme''"
        "{''d/readme''}" "{}"]
  have h1: "CHR ''.'' \<notin> set ''notes''" by simp
  have h2: "CHR ''.'' \<notin> set ''GZ''" by simp
  have low: "toLowerCase ''GZ'' = ''gz''" by (simp add: toLowerCase_def toLowerChar_def)
  from t h1 have w1: "getPathExtension ''notes'' = None" by blast
  from t h2 have "getPathExtension (''archive.tar'' @ CHR ''.'' # ''GZ'') =
      (if ''archive.tar'' = [] \<or> ''GZ'' = [] then None else Some (toLowerCase ''GZ''))"
    by blast
  then have w2: "getPathExtension (''archive.tar'' @ CHR ''.'' # ''GZ'') = Some ''gz''"
    by (simp add: low)
  from t have h3: "getPathExtension ''/data.d/readme'' = Some ''d/readme''" by blast
  from t have "getPathExtension ''/data.d/readme'' = Some ''d/readme'' \<longrightarrow>
      matchesExtensionFilters ''/data.d/readme'' {''d/readme''} {} =
        (({''d/readme''} = ({} :: string set) \<or> ''d/readme'' \<in> {''d/readme''}) \<and> ''d/readme'' \<notin> ({} :: string set))"
    by blast
  with h3 have w3: "matchesExtensionFilters ''/data.d/readme'' {''d/readme''} {}" by simp
  from w1 w2 w3 show ?thesis by blast
qed

section \<open>Remote panel (src/features/remote/RemotePanel.tsx)\<close>

text \<open>
  The panel keeps the saved servers in the application store and its own error banner in
  component state. The state here is what the connect, disconnect and status handlers
  read and write: the servers, the active server, the banner, the four inputs of the
  "add server" form, and the calls made to the backend (\<open>connectRemote\<close>,
  \<open>disconnectRemote\<close>), in order.
\<close>

datatype RemoteStatus = Disconnected | Connecting | Connected | ErrorStatus

record RemoteServer =
  server_id :: string
  server_name :: string
  server_host :: string
  server_port :: nat
  server_token :: string
  server_favorite :: bool
  server_status :: RemoteStatus
  server_lastMessage :: "string option"

record RemoteStatusPayload =
  push_status :: RemoteStatus
  push_address :: "string option"
  push_message :: "string option"

datatype RemoteCall = ConnectRemote RemoteServer | DisconnectRemote

record PanelState =
  remoteServers :: "RemoteServer list"
  activeRemoteServerId :: "string option"
  panelError :: "string option"
  nameInput :: string
  hostInput :: string
  portInput :: string
  tokenInput :: string
  remoteCalls :: "RemoteCall list"

text \<open>
  Modelled from the spec: \<open>updateRemoteServerStatus\<close> is an action of the application
  store, whose source is not among the files; the specification says that a server's
  connection status and last status message are "mutated by connection-status events".
  The action sets the status and the last message of the server with the given id and
  leaves every other server as it is (a call without a message passes \<open>None\<close>).
\<close>

definition updateRemoteServerStatus ::
  "string \<Rightarrow> RemoteStatus \<Rightarrow> string option \<Rightarrow> RemoteServer list \<Rightarrow> RemoteServer list" where
  "updateRemoteServerStatus ident st message servers =
     map (\<lambda>server. if server_id server = ident
                    then server\<lparr>server_status := st, server_lastMessage := message\<rparr>
                    else server) servers"

text \<open>\<open>natToString\<close> is the decimal text of a port number, as the template literal
  \<open>`${server.host}:${server.port}`\<close> prints it.\<close>

fun natToString :: "nat \<Rightarrow> string" where
  "natToString n =
     (if n < 10 then [''0123456789'' ! n]
      else natToString (n div 10) @ [''0123456789'' ! (n mod 10)])"

declare natToString.simps [simp del]

text \<open>
  \<open>parsePort\<close> and \<open>getServerInput\<close>. \<open>Number(value)\<close> is the platform's; it is the
  parameter \<open>numberOf\<close>, \<open>None\<close> standing for a result that is not finite. The error
  of \<open>getServerInput\<close> is the left summand.
\<close>

definition parsePort :: "(string \<Rightarrow> rat option) \<Rightarrow> string \<Rightarrow> nat option" where
  "parsePort numberOf v =
     (case numberOf v of
        None \<Rightarrow> None
      | Some parsed \<Rightarrow> if parsed < 1 \<or> parsed > 65535 then None else Some (nat \<lfloor>parsed\<rfloor>))"

record ServerInput =
  input_name :: string
  input_host :: string
  input_port :: nat
  input_token :: string

definition getServerInput ::
  "(string \<Rightarrow> rat option) \<Rightarrow> string \<Rightarrow> string \<Rightarrow> string \<Rightarrow> string \<Rightarrow> string + ServerInput" where
  "getServerInput numberOf nameIn hostIn portIn tokenIn =
     (let port = parsePort numberOf portIn;
          host = trim hostIn;
          name = trim nameIn;
          token = trim tokenIn
      in if host = [] \<or> port = None then Inl ''Provide a valid host and port.''
         else if token = [] then Inl ''Token is required for authentication.''
         else Inr \<lparr>input_name = name, input_host = host, input_port = the port,
                    input_token = token\<rparr>)"

text \<open>
  \<open>resetConnectingServers\<close> walks the servers it was given (the list the component
  rendered with) and calls the store's status update for each server other than the
  active one that is connecting.
\<close>

fun resetConnectingServers :: "RemoteServer list \<Rightarrow> string \<Rightarrow> RemoteServer list \<Rightarrow> RemoteServer list" where
  "resetConnectingServers [] activeId store = store"
| "resetConnectingServers (server # rest) activeId store =
     (if server_id server = activeId then resetConnectingServers rest activeId store
      else if server_status server = Connecting then
        resetConnectingServers rest activeId
          (updateRemoteServerStatus (server_id server) Disconnected None store)
      else resetConnectingServers rest activeId store)"

definition serverAddress :: "RemoteServer \<Rightarrow> string" where
  "serverAddress server = server_host server @ '':'' @ natToString (server_port server)"

definition findServerByAddress :: "RemoteServer list \<Rightarrow> string option \<Rightarrow> RemoteServer option" where
  "findServerByAddress servers address =
     (case address of
        None \<Rightarrow> None
      | Some a \<Rightarrow>
          if a = [] then None
          else let normalized = trim a
               in if normalized = [] then None
                  else find (\<lambda>server. serverAddress server = normalized) servers)"

definition connectingServerId :: "RemoteServer list \<Rightarrow> string option" where
  "connectingServerId servers =
     map_option server_id (find (\<lambda>server. server_status server = Connecting) servers)"

text \<open>
  The handlers. \<open>handleConnect\<close> up to its \<open>await\<close>: the two guards, then the reset of
  the other servers, the status \<open>connecting\<close> and the call of \<open>connectRemote\<close>;
  \<open>connectFailed\<close> is its \<open>catch\<close> branch. \<open>handleDisconnect\<close> is split the same
  way. \<open>createId()\<close> is the parameter \<open>newId\<close>.
\<close>

definition handleAddServer :: "(string \<Rightarrow> rat option) \<Rightarrow> string \<Rightarrow> PanelState \<Rightarrow> PanelState" where
  "handleAddServer numberOf newId s =
     (case getServerInput numberOf (nameInput s) (hostInput s) (portInput s) (tokenInput s) of
        Inl e \<Rightarrow> s\<lparr>panelError := Some e\<rparr>
      | Inr d \<Rightarrow>
          s\<lparr>remoteServers := remoteServers s @
                [\<lparr>server_id = newId,
                  server_name = (if input_name d = [] then input_host d else input_name d),
                  server_host = input_host d, server_port = input_port d,
                  server_token = input_token d, server_favorite = False,
                  server_status = Disconnected, server_lastMessage = None\<rparr>],
            activeRemoteServerId := Some newId,
            nameInput := [], hostInput := [], portInput := ''4799'', tokenInput := [],
            panelError := None\<rparr>)"

definition handleConnect :: "RemoteServer \<Rightarrow> PanelState \<Rightarrow> PanelState" where
  "handleConnect server s =
     (if trim (server_token server) = [] then
        s\<lparr>panelError := Some ''Token is required for authentication.''\<rparr>
      else if (case connectingServerId (remoteServers s) of
                 None \<Rightarrow> False
               | Some c \<Rightarrow> c \<noteq> [] \<and> c \<noteq> server_id server) then
        s\<lparr>panelError := Some ''Another connection is in progress.''\<rparr>
      else
        s\<lparr>panelError := None,
          activeRemoteServerId := Some (server_id server),
          remoteServers :=
            updateRemoteServerStatus (server_id server) Connecting None
              (resetConnectingServers (remoteServers s) (server_id server) (remoteServers s)),
          remoteCalls := remoteCalls s @ [ConnectRemote server]\<rparr>)"

definition connectFailed :: "RemoteServer \<Rightarrow> string \<Rightarrow> PanelState \<Rightarrow> PanelState" where
  "connectFailed server message s =
     s\<lparr>remoteServers := updateRemoteServerStatus (server_id server) ErrorStatus (Some message)
                           (remoteServers s),
       panelError := Some message\<rparr>"




text \<open>
  The status listener (\<open>listenRemoteStatus\<close>) and the status poll on mount
  (\<open>requestRemoteStatus\<close>).
\<close>

definition pushTarget :: "RemoteStatusPayload \<Rightarrow> PanelState \<Rightarrow> string option" where
  "pushTarget payload s =
     (case findServerByAddress (remoteServers s) (push_address payload) of
        Some matched \<Rightarrow> Some (server_id matched)
      | None \<Rightarrow> activeRemoteServerId s)"

definition statusPushed :: "RemoteStatusPayload \<Rightarrow> PanelState \<Rightarrow> PanelState" where
  "statusPushed payload s =
     (case pushTarget payload s of
        None \<Rightarrow> s
      | Some targetId \<Rightarrow>
          if targetId = [] then s
          else
            let s1 = s\<lparr>remoteServers := updateRemoteServerStatus targetId (push_status payload)
                                            (push_message payload) (remoteServers s)\<rparr>
            in (case findServerByAddress (remoteServers s) (push_address payload) of
                  Some matched \<Rightarrow>
                    if push_status payload = Connected \<and> server_id matched \<noteq> []
                    then s1\<lparr>activeRemoteServerId := Some (server_id matched)\<rparr> else s1
                | None \<Rightarrow> s1))"





text \<open>
  \<open>connectingCount\<close> counts the servers whose status is connecting. \<open>pushKeepsOne\<close>
  holds of a status push in a state when the push does not announce \<open>connecting\<close>, or
  every server that is connecting is the push's own target; \<open>pushesKeepOne\<close> asks it of
  every status push along a run.
\<close>

definition connectingCount :: "PanelState \<Rightarrow> nat" where
  "connectingCount s = length (filter (\<lambda>server. server_status server = Connecting) (remoteServers s))"

definition pushKeepsOne :: "RemoteStatusPayload \<Rightarrow> PanelState \<Rightarrow> bool" where
  "pushKeepsOne payload s =
     (if push_status payload = Connecting
      then list_all (\<lambda>server. if server_status server = Connecting
                               then pushTarget payload s = Some (server_id server) else True)
             (remoteServers s)
      else True)"



definition connectBlocked :: "RemoteServer \<Rightarrow> PanelState \<Rightarrow> bool" where
  "connectBlocked server s =
     (case connectingServerId (remoteServers s) of
        None \<Rightarrow> False
      | Some c \<Rightarrow> c \<noteq> [] \<and> c \<noteq> server_id server)"


text \<open>Two saved servers and a panel holding them, for the concrete runs below.\<close>

definition exampleAlpha :: RemoteServer where
  "exampleAlpha = \<lparr>server_id = ''id-alpha'', server_name = ''alpha'', server_host = ''alpha.local'',
     server_port = 4799, server_token = ''secret-a'', server_favorite = False,
     server_status = Disconnected, server_lastMessage = None\<rparr>"

definition exampleBeta :: RemoteServer where
  "exampleBeta = \<lparr>server_id = ''id-beta'', server_name = ''beta'', server_host = ''beta.local'',
     server_port = 4800, server_token = ''secret-b'', server_favorite = False,
     server_status = Disconnected, server_lastMessage = None\<rparr>"

definition examplePanel :: PanelState where
  "examplePanel = \<lparr>remoteServers = [exampleAlpha, exampleBeta], activeRemoteServerId = None,
     panelError = None, nameInput = [], hostInput = [], portInput = ''4799'', tokenInput = [],
     remoteCalls = []\<rparr>"


subsection \<open>The connecting status along a run\<close>

lemma updateRemoteServerStatus_ids [simp]:
  "map server_id (updateRemoteServerStatus ident st message servers) = map server_id servers"
  by (induction servers) (auto simp: updateRemoteServerStatus_def)

lemma resetConnectingServers_ids [simp]:
  "map server_id (resetConnectingServers snapshot activeId store) = map server_id store"
  by (induction snapshot activeId store rule: resetConnectingServers.induct) auto


























lemmas panel_defs = examplePanel_def exampleAlpha_def exampleBeta_def handleConnect_def
  connectingServerId_def updateRemoteServerStatus_def statusPushed_def pushTarget_def
  findServerByAddress_def serverAddress_def natToString.simps trim_def isWhitespace_def
  connectingCount_def connectFailed_def pushKeepsOne_def connectBlocked_def



text \<open>
  Claim C8, amended. For a server whose token is empty or white space only, the connect
  action sets the error banner to "Token is required for authentication." and does
  nothing else: it calls neither \<open>connectRemote\<close> nor anything else, and it changes no
  server (so no connection status) and not the active server. Saving a new server with
  an empty or blank token is rejected with an error: no server is added.
\<close>

theorem blank_token_connect_rejected:
  "(trim (server_token server) = [] \<longrightarrow>
      panelError (handleConnect server s) = Some ''Token is required for authentication.''
      \<and> remoteCalls (handleConnect server s) = remoteCalls s
      \<and> remoteServers (handleConnect server s) = remoteServers s
      \<and> activeRemoteServerId (handleConnect server s) = activeRemoteServerId s)
   \<and> (trim (tokenInput s') = [] \<longrightarrow>
      (\<exists>e. getServerInput numberOf (nameInput s') (hostInput s') (portInput s') (tokenInput s') = Inl e
           \<and> handleAddServer numberOf newId s' = s'\<lparr>panelError := Some e\<rparr>))"
  by (auto simp: handleConnect_def handleAddServer_def getServerInput_def Let_def)

text \<open>
  Claim C8, as stated, fails in one place: after the connect action on a server with a
  blank token the server's connection status is what it was (here disconnected), not
  \<open>error\<close>.
\<close>

theorem blank_token_connect_rejected_counterexample:
  "trim (server_token (exampleAlpha\<lparr>server_token := ''   ''\<rparr>)) = []
   \<and> map server_status
       (remoteServers (handleConnect (exampleAlpha\<lparr>server_token := ''   ''\<rparr>)
          (examplePanel\<lparr>remoteServers := [exampleAlpha\<lparr>server_token := ''   ''\<rparr>]\<rparr>)))
     = [Disconnected]"
  by (simp add: panel_defs)

theorem blank_token_connect_rejected_witness:
  "panelError (handleConnect (exampleAlpha\<lparr>server_token := ''   ''\<rparr>) examplePanel)
     = Some ''Token is required for authentication.''
   \<and> remoteCalls (handleConnect (exampleAlpha\<lparr>server_token := ''   ''\<rparr>) examplePanel) = []
   \<and> handleAddServer (\<lambda>v. Some 4799) ''id-new''
        (examplePanel\<lparr>hostInput := ''gamma.local'', tokenInput := '' ''\<rparr>)
      = (examplePanel\<lparr>hostInput := ''gamma.local'', tokenInput := '' ''\<rparr>)
          \<lparr>panelError := Some ''Token is required for authentication.''\<rparr>"
proof -
  let ?srv = "exampleAlpha\<lparr>server_token := ''   ''\<rparr>"
  let ?s' = "examplePanel\<lparr>hostInput := ''gamma.local'', tokenInput := '' ''\<rparr>"
  note t = blank_token_connect_rejected [of ?srv examplePanel ?s' "\<lambda>v. Some 4799" "''id-new''"]
  have h1: "trim (server_token ?srv) = []" by (simp add: trim_def isWhitespace_def)
  have h2: "trim (tokenInput ?s') = []" by (simp add: trim_def isWhitespace_def examplePanel_def)
  from t h1 have c1: "panelError (handleConnect ?srv examplePanel)
     = Some ''Token is required for authentication.''"
    and "remoteCalls (handleConnect ?srv examplePanel) = remoteCalls examplePanel" by blast+
  then have c2: "remoteCalls (handleConnect ?srv examplePanel) = []"
    by (simp add: examplePanel_def)
  from t h2 obtain e where
    e: "getServerInput (\<lambda>v. Some 4799) (nameInput ?s') (hostInput ?s') (portInput ?s') (tokenInput ?s') = Inl e"
    and add: "handleAddServer (\<lambda>v. Some 4799) ''id-new'' ?s' = ?s'\<lparr>panelError := Some e\<rparr>" by blast
  have "getServerInput (\<lambda>v. Some 4799) (nameInput ?s') (hostInput ?s') (portInput ?s') (tokenInput ?s')
      = Inl ''Token is required for authentication.''"
    by (simp add: getServerInput_def parsePort_def trim_def isWhitespace_def examplePanel_def)
  with e have "e = ''Token is required for authentication.''" by simp
  with add have c3: "handleAddServer (\<lambda>v. Some 4799) ''id-new'' ?s' =
      ?s'\<lparr>panelError := Some ''Token is required for authentication.''\<rparr>" by simp
  from c1 c2 c3 show ?thesis by blast
qed

section \<open>Remote directory listing (handleRemoteEvent, requestRemoteListing)\<close>

text \<open>
  The part of the scan view that lists remote folders: the refs
  (\<open>remoteListRequestIdRef\<close>, the map from request id to requested path, the map from
  request id to timer handle), the browser's armed timers (each closes over its request
  id), and the state the handlers set (tree, focus path, roots, expanded nodes, loading
  flag, error). A \<open>Map<string, string | null>\<close> is a map to \<open>string option\<close>.
  \<open>createRemoteRequestId()\<close> is the parameter \<open>requestId\<close>; the requests handed to
  \<open>requestRemoteList\<close> are logged in \<open>listRequestsSent\<close>.
\<close>

record RemoteTreeNode =
  tn_path :: string
  tn_name :: string
  tn_isDir :: bool
  tn_children :: "string list option"
  tn_loading :: bool
  tn_error :: "string option"

record RemoteEntry =
  entry_name :: string
  entry_path :: string
  entry_isDir :: bool

record RemoteListPayload =
  data_entries :: "RemoteEntry list option"
  data_os :: "string option"
  data_path :: "string option"

datatype RemoteEvent = ListComplete | ListError | GenericError | OtherEvent

record RemoteEventPayload =
  payload_event :: RemoteEvent
  payload_id :: "string option"
  payload_data :: "RemoteListPayload option"
  payload_message :: "string option"

record RemoteView =
  remoteSyncEnabled :: bool
  isRemoteConnected :: bool
  remoteListRequestIdRef :: "string option"
  remoteListRequestMapRef :: "string \<rightharpoonup> string option"
  remoteListTimeoutsRef :: "string \<rightharpoonup> nat"
  armedTimers :: "nat \<rightharpoonup> string"
  nextTimerHandle :: nat
  remoteOs :: "string option"
  remoteFocusPath :: "string option"
  remoteTree :: "string \<rightharpoonup> RemoteTreeNode"
  remoteTreeRoots :: "string list"
  remoteTreeExpanded :: "string set"
  remoteListLoading :: bool
  remoteListError :: "string option"
  listRequestsSent :: "(string \<times> string option) list"

text \<open>\<open>truthy\<close>: a JavaScript string-or-null in a condition (\<open>null\<close> and the empty string
  are false).\<close>

definition truthy :: "string option \<Rightarrow> bool" where
  "truthy v = (case v of None \<Rightarrow> False | Some s \<Rightarrow> s \<noteq> [])"

definition isPathSeparator :: "char \<Rightarrow> bool" where
  "isPathSeparator c = (c = CHR ''/'' \<or> c = CHR 0x5C)"

definition getRemoteNodeName :: "string \<Rightarrow> string" where
  "getRemoteNodeName path =
     (if path = ''/'' then ''/''
      else
        let trimmed = rev (dropWhile isPathSeparator (rev path));
            parts = filter (\<lambda>part. part \<noteq> []) (splitOn isPathSeparator trimmed)
        in if parts = [] then path else last parts)"

text \<open>
  \<open>forgetListRequest\<close> is the block the three response branches share: delete the
  request from the map, clear its timer if the handle is non-zero, delete the handle.
\<close>

definition clearTimeout :: "nat \<Rightarrow> RemoteView \<Rightarrow> RemoteView" where
  "clearTimeout handle s = s\<lparr>armedTimers := (armedTimers s)(handle := None)\<rparr>"

definition forgetListRequest :: "string \<Rightarrow> RemoteView \<Rightarrow> RemoteView" where
  "forgetListRequest ident s =
     (let s1 = s\<lparr>remoteListRequestMapRef := (remoteListRequestMapRef s)(ident := None)\<rparr>;
          s2 = (case remoteListTimeoutsRef s1 ident of
                  None \<Rightarrow> s1
                | Some handle \<Rightarrow> if handle \<noteq> 0 then clearTimeout handle s1 else s1)
      in s2\<lparr>remoteListTimeoutsRef := (remoteListTimeoutsRef s2)(ident := None)\<rparr>)"

fun addListedEntries ::
  "RemoteEntry list \<Rightarrow> (string \<rightharpoonup> RemoteTreeNode) \<Rightarrow> (string \<rightharpoonup> RemoteTreeNode)" where
  "addListedEntries [] tree = tree"
| "addListedEntries (entry # rest) tree =
     addListedEntries rest
       (tree(entry_path entry \<mapsto>
          \<lparr>tn_path = entry_path entry, tn_name = entry_name entry, tn_isDir = entry_isDir entry,
           tn_children = (case tree (entry_path entry) of None \<Rightarrow> None
                          | Some existing \<Rightarrow> tn_children existing),
           tn_loading = False, tn_error = None\<rparr>))"

definition markListFailed ::
  "string \<Rightarrow> string \<Rightarrow> (string \<rightharpoonup> RemoteTreeNode) \<Rightarrow> (string \<rightharpoonup> RemoteTreeNode)" where
  "markListFailed requestPath message tree =
     (case tree requestPath of
        None \<Rightarrow> tree
      | Some existing \<Rightarrow> tree(requestPath \<mapsto> existing\<lparr>tn_loading := False, tn_error := Some message\<rparr>))"

definition messageOr :: "string option \<Rightarrow> string \<Rightarrow> string" where
  "messageOr message fallback = (case message of None \<Rightarrow> fallback | Some m \<Rightarrow> m)"

definition lookupRequestPath :: "string option \<Rightarrow> RemoteView \<Rightarrow> string option" where
  "lookupRequestPath ident s =
     (case ident of
        None \<Rightarrow> None
      | Some i \<Rightarrow> (case remoteListRequestMapRef s i of None \<Rightarrow> None | Some p \<Rightarrow> p))"

text \<open>
  \<open>handleRemoteEvent\<close>, branch for branch. The \<open>list-complete\<close> branch first compares
  the response's id with \<open>remoteListRequestIdRef\<close>, the id of the request issued last,
  and returns if both are set and differ. The branches for disk and scan events touch no
  state of this record; they are \<open>OtherEvent\<close>.
\<close>

definition handleListComplete :: "RemoteEventPayload \<Rightarrow> RemoteView \<Rightarrow> RemoteView" where
  "handleListComplete payload s =
     (let listId = remoteListRequestIdRef s
      in if truthy (payload_id payload) \<and> truthy listId \<and> payload_id payload \<noteq> listId then s
         else
           (case payload_data payload of
              None \<Rightarrow> s\<lparr>remoteListLoading := False, remoteListError := None\<rparr>
            | Some d \<Rightarrow>
                let entries = (case data_entries d of None \<Rightarrow> [] | Some es \<Rightarrow> es);
                    s1 = (if truthy (data_os d) then s\<lparr>remoteOs := data_os d\<rparr> else s);
                    requestPath = (if truthy (payload_id payload)
                                   then lookupRequestPath (payload_id payload) s1 else None);
                    isWindows = (data_os d = Some ''windows'');
                    normalizedListPath =
                      (if isWindows \<and> data_path d = Some ''/'' then None else data_path d);
                    listPath = (case normalizedListPath of Some p \<Rightarrow> Some p | None \<Rightarrow> requestPath);
                    s2 = s1\<lparr>remoteFocusPath := listPath\<rparr>;
                    s3 = (if truthy (payload_id payload)
                          then forgetListRequest (the (payload_id payload)) s2 else s2);
                    listed = addListedEntries entries (remoteTree s3);
                    s4 = s3\<lparr>remoteTree :=
                            (if truthy listPath
                             then listed(the listPath \<mapsto>
                                    \<lparr>tn_path = the listPath,
                                     tn_name = getRemoteNodeName (the listPath),
                                     tn_isDir = True,
                                     tn_children = Some (map entry_path entries),
                                     tn_loading = False, tn_error = None\<rparr>)
                             else listed)\<rparr>;
                    s5 = (if requestPath = None \<and> listPath = Some ''/'' then
                            s4\<lparr>remoteTreeRoots := [''/''],
                               remoteTreeExpanded := insert ''/'' (remoteTreeExpanded s4)\<rparr>
                          else if requestPath = None \<and> listPath = None then
                            s4\<lparr>remoteTreeRoots := map entry_path entries\<rparr>
                          else s4)
                in if requestPath = None
                   then s5\<lparr>remoteListLoading := False, remoteListError := None\<rparr> else s5))"

definition handleListError :: "RemoteEventPayload \<Rightarrow> RemoteView \<Rightarrow> RemoteView" where
  "handleListError payload s =
     (let message = messageOr (payload_message payload) ''Failed to list remote folder'';
          s1 = (if truthy (payload_id payload) then
                  let requestPath = lookupRequestPath (payload_id payload) s;
                      s0 = forgetListRequest (the (payload_id payload)) s
                  in if truthy requestPath
                     then s0\<lparr>remoteTree := markListFailed (the requestPath) message (remoteTree s0)\<rparr>
                     else s0
                else s)
      in if \<not> truthy (payload_id payload)
         then s1\<lparr>remoteListLoading := False, remoteListError := Some message\<rparr> else s1)"

definition handleGenericError :: "RemoteEventPayload \<Rightarrow> RemoteView \<Rightarrow> RemoteView" where
  "handleGenericError payload s =
     (let message = messageOr (payload_message payload) ''Remote error'';
          s1 = (if truthy (payload_id payload) then
                  let requestPath = lookupRequestPath (payload_id payload) s;
                      s0 = forgetListRequest (the (payload_id payload)) s
                  in if truthy requestPath
                     then s0\<lparr>remoteTree := markListFailed (the requestPath) message (remoteTree s0)\<rparr>
                     else s0
                else s)
      in s1\<lparr>remoteListLoading := False, remoteListError := Some message\<rparr>)"

definition handleRemoteEvent :: "RemoteEventPayload \<Rightarrow> RemoteView \<Rightarrow> RemoteView" where
  "handleRemoteEvent payload s =
     (if \<not> remoteSyncEnabled s then s
      else (case payload_event payload of
              ListComplete \<Rightarrow> handleListComplete payload s
            | ListError \<Rightarrow> handleListError payload s
            | GenericError \<Rightarrow> handleGenericError payload s
            | OtherEvent \<Rightarrow> s))"

text \<open>
  \<open>listTimeoutFired\<close> is the watchdog's callback, run by the browser for an armed
  timer (5000 ms after \<open>requestRemoteListing\<close> armed it; the model has no clock, the
  timer fires as a step of its own).
\<close>

definition listTimeoutFired :: "nat \<Rightarrow> RemoteView \<Rightarrow> RemoteView" where
  "listTimeoutFired handle s =
     (case armedTimers s handle of
        None \<Rightarrow> s
      | Some requestId \<Rightarrow>
          let s0 = s\<lparr>armedTimers := (armedTimers s)(handle := None)\<rparr>;
              requestPath = lookupRequestPath (Some requestId) s0;
              s1 = s0\<lparr>remoteListRequestMapRef := (remoteListRequestMapRef s0)(requestId := None),
                      remoteListTimeoutsRef := (remoteListTimeoutsRef s0)(requestId := None)\<rparr>
          in if \<not> truthy requestPath then
               s1\<lparr>remoteListLoading := False,
                  remoteListError := Some ''Remote list request timed out.''\<rparr>
             else
               s1\<lparr>remoteTree := markListFailed (the requestPath) ''Remote list request timed out.''
                                    (remoteTree s1)\<rparr>)"

definition requestRemoteListing :: "string \<Rightarrow> string option \<Rightarrow> RemoteView \<Rightarrow> RemoteView" where
  "requestRemoteListing requestId path s =
     (if \<not> remoteSyncEnabled s then s\<lparr>remoteListError := Some ''Remote sync is disabled.''\<rparr>
      else if \<not> isRemoteConnected s then s\<lparr>remoteListError := Some ''No remote server connected.''\<rparr>
      else
        let isTopLevelRequest = \<not> truthy path;
            s1 = s\<lparr>remoteListRequestIdRef := Some requestId,
                   remoteListRequestMapRef := (remoteListRequestMapRef s)(requestId \<mapsto> path)\<rparr>;
            s2 = (case remoteListTimeoutsRef s1 requestId of
                    None \<Rightarrow> s1
                  | Some previousTimeout \<Rightarrow>
                      (if previousTimeout \<noteq> 0 then clearTimeout previousTimeout s1 else s1)
                        \<lparr>remoteListTimeoutsRef := (remoteListTimeoutsRef s1)(requestId := None)\<rparr>);
            s3 = (if isTopLevelRequest
                  then s2\<lparr>remoteListLoading := True, remoteListError := None\<rparr> else s2);
            s4 = s3\<lparr>remoteFocusPath := path\<rparr>;
            s5 = (if truthy path then
                    s4\<lparr>remoteTreeExpanded := insert (the path) (remoteTreeExpanded s4),
                       remoteTree :=
                         (case remoteTree s4 (the path) of
                            None \<Rightarrow>
                              (remoteTree s4)(the path \<mapsto>
                                 \<lparr>tn_path = the path, tn_name = getRemoteNodeName (the path),
                                  tn_isDir = True, tn_children = None, tn_loading = True,
                                  tn_error = None\<rparr>)
                          | Some existing \<Rightarrow>
                              (remoteTree s4)(the path \<mapsto>
                                 existing\<lparr>tn_loading := True, tn_error := None\<rparr>))\<rparr>
                  else s4);
            timeoutId = nextTimerHandle s5
        in s5\<lparr>armedTimers := (armedTimers s5)(timeoutId \<mapsto> requestId),
              nextTimerHandle := timeoutId + 1,
              remoteListTimeoutsRef := (remoteListTimeoutsRef s5)(requestId \<mapsto> timeoutId),
              listRequestsSent := listRequestsSent s5 @ [(requestId, path)]\<rparr>)"

text \<open>
  Concrete runs: a connected view with nothing requested yet, listings of \<open>/home\<close> and
  of \<open>/\<close> as the server sends them, two requests in flight, and a request whose
  watchdog has fired.
\<close>

definition exampleView :: RemoteView where
  "exampleView =
     \<lparr>remoteSyncEnabled = True, isRemoteConnected = True, remoteListRequestIdRef = None,
      remoteListRequestMapRef = Map.empty, remoteListTimeoutsRef = Map.empty,
      armedTimers = Map.empty, nextTimerHandle = 1, remoteOs = None, remoteFocusPath = None,
      remoteTree = Map.empty, remoteTreeRoots = [], remoteTreeExpanded = {},
      remoteListLoading = False, remoteListError = None, listRequestsSent = []\<rparr>"

definition homeListing :: "string \<Rightarrow> RemoteEventPayload" where
  "homeListing ident =
     \<lparr>payload_event = ListComplete, payload_id = Some ident,
      payload_data = Some \<lparr>data_entries = Some [\<lparr>entry_name = ''alice'', entry_path = ''/home/alice'',
                                                  entry_isDir = True\<rparr>],
                           data_os = Some ''linux'', data_path = Some ''/home''\<rparr>,
      payload_message = None\<rparr>"

definition rootListing :: "string \<Rightarrow> RemoteEventPayload" where
  "rootListing ident =
     \<lparr>payload_event = ListComplete, payload_id = Some ident,
      payload_data = Some \<lparr>data_entries = Some [\<lparr>entry_name = ''home'', entry_path = ''/home'',
                                                  entry_isDir = True\<rparr>],
                           data_os = Some ''linux'', data_path = Some ''/''\<rparr>,
      payload_message = None\<rparr>"

definition homeListError :: "string \<Rightarrow> RemoteEventPayload" where
  "homeListError ident =
     \<lparr>payload_event = ListError, payload_id = Some ident, payload_data = None,
      payload_message = Some ''permission denied''\<rparr>"

definition twoListRequests :: RemoteView where
  "twoListRequests =
     requestRemoteListing ''req-2'' (Some ''/var'')
       (requestRemoteListing ''req-1'' (Some ''/home'') exampleView)"

definition timedOutRootRequest :: RemoteView where
  "timedOutRootRequest = listTimeoutFired 1 (requestRemoteListing ''req-1'' None exampleView)"

definition timedOutHomeRequest :: RemoteView where
  "timedOutHomeRequest =
     listTimeoutFired 1 (requestRemoteListing ''req-1'' (Some ''/home'') exampleView)"

lemmas view_defs = exampleView_def homeListing_def rootListing_def requestRemoteListing_def
  handleRemoteEvent_def handleListComplete_def handleListError_def listTimeoutFired_def
  truthy_def lookupRequestPath_def forgetListRequest_def clearTimeout_def markListFailed_def
  getRemoteNodeName_def isPathSeparator_def messageOr_def Let_def

lemmas trace_defs = twoListRequests_def timedOutRootRequest_def timedOutHomeRequest_def
  homeListError_def

subsection \<open>Responses against the requests in flight\<close>

text \<open>
  Claim C3, at the input where the code departs from it. Two list requests are in
  flight, \<open>req-1\<close> for \<open>/home\<close> and then \<open>req-2\<close> for \<open>/var\<close>; both are in the request
  map and the watchdog of \<open>req-1\<close> is armed. The \<open>list-complete\<close> response that carries
  \<open>req-1\<close> leaves the state as it is: \<open>/home\<close> stays loading with no children, and
  when its watchdog fires it is marked as timed out. A \<open>list-error\<close> response carrying
  \<open>req-1\<close> in the same state does reach \<open>/home\<close>.
\<close>

theorem earlier_list_response_dropped:
  "remoteListRequestMapRef twoListRequests ''req-1'' = Some (Some ''/home'')
   \<and> remoteListRequestMapRef twoListRequests ''req-2'' = Some (Some ''/var'')
   \<and> armedTimers twoListRequests 1 = Some ''req-1''
   \<and> handleRemoteEvent (homeListing ''req-1'') twoListRequests = twoListRequests
   \<and> map_option tn_loading (remoteTree twoListRequests ''/home'') = Some True
   \<and> map_option tn_children (remoteTree twoListRequests ''/home'') = Some None
   \<and> map_option tn_error
        (remoteTree (listTimeoutFired 1 (handleRemoteEvent (homeListing ''req-1'') twoListRequests))
           ''/home'') = Some (Some ''Remote list request timed out.'')
   \<and> map_option tn_error
        (remoteTree (handleRemoteEvent (homeListError ''req-1'') twoListRequests) ''/home'')
        = Some (Some ''permission denied'')"
  by (simp add: trace_defs view_defs)

text \<open>
  Claim C4, at the input where the code departs from it. A top-level list request
  \<open>req-1\<close> sets the loading flag; when its watchdog fires the flag is cleared, the
  timeout error is recorded and the request is forgotten (the part of the claim that
  holds). The \<open>list-complete\<close> response for \<open>req-1\<close> that arrives afterwards is
  applied: it erases the error, sets the roots and the focus path and fills the tree. The
  same happens for a request for \<open>/home\<close>: the late response erases the node's timeout
  error and sets its children. A late \<open>list-error\<close> response changes neither the tree
  nor the error.
\<close>

theorem late_list_response_applied:
  "remoteListLoading (requestRemoteListing ''req-1'' None exampleView)
   \<and> \<not> remoteListLoading timedOutRootRequest
   \<and> remoteListError timedOutRootRequest = Some ''Remote list request timed out.''
   \<and> remoteListRequestMapRef timedOutRootRequest ''req-1'' = None
   \<and> remoteTreeRoots timedOutRootRequest = []
   \<and> remoteListError (handleRemoteEvent (rootListing ''req-1'') timedOutRootRequest) = None
   \<and> remoteTreeRoots (handleRemoteEvent (rootListing ''req-1'') timedOutRootRequest) = [''/'']
   \<and> remoteFocusPath (handleRemoteEvent (rootListing ''req-1'') timedOutRootRequest) = Some ''/''
   \<and> map_option tn_children
        (remoteTree (handleRemoteEvent (rootListing ''req-1'') timedOutRootRequest) ''/'')
        = Some (Some [''/home''])
   \<and> map_option tn_error (remoteTree timedOutHomeRequest ''/home'')
        = Some (Some ''Remote list request timed out.'')
   \<and> map_option tn_loading (remoteTree timedOutHomeRequest ''/home'') = Some False
   \<and> remoteListRequestMapRef timedOutHomeRequest ''req-1'' = None
   \<and> map_option tn_error
        (remoteTree (handleRemoteEvent (homeListing ''req-1'') timedOutHomeRequest) ''/home'')
        = Some None
   \<and> map_option tn_children
        (remoteTree (handleRemoteEvent (homeListing ''req-1'') timedOutHomeRequest) ''/home'')
        = Some (Some [''/home/alice''])
   \<and> remoteTree (handleRemoteEvent (homeListError ''req-1'') timedOutHomeRequest)
        = remoteTree timedOutHomeRequest
   \<and> remoteListError (handleRemoteEvent (homeListError ''req-1'') timedOutHomeRequest)
        = remoteListError timedOutHomeRequest"
  by (simp add: trace_defs view_defs)

end
